theory Spec2Isabelle
  imports Main "HOL-Library.AList" "HOL-Library.Word"
begin

section \<open>The IGDB client: values, state and the outside world\<close>

text \<open>
  The development embeds the class \<open>IGDBService\<close>: its token life cycle, its request
  cache and its convenience query methods. A JavaScript string is a \<open>string\<close> whose
  characters are read as the code points U+0000 to U+00FF. JavaScript numbers are doubles;
  the model has the integral ones. Clock readings and expiry times are integers (epoch
  milliseconds), with the rounding of double arithmetic written out where the source
  computes with a value the remote side chose. The numbers a caller passes to a method
  have a type of their own, with \<open>NaN\<close> and the infinities.
\<close>

subsection \<open>JSON payloads and truthiness\<close>

text \<open>
  The parsed body of a response (\<open>response.data\<close>, of type \<open>any\<close>). The client only
  relays a payload and tests it for truthiness, for which all that matters of a number
  is whether it is zero.
\<close>

datatype json =
    JNull
  | JBool bool
  | JNum int
  | JStr string
  | JArr "json list"
  | JObj "(string \<times> json) list"

text \<open>
  What \<open>if (v)\<close> tests: \<open>null\<close>, \<open>false\<close>, \<open>0\<close> and the empty string are falsy; every
  array and every object is truthy.
\<close>

fun truthy :: "json \<Rightarrow> bool" where
  "truthy JNull = False"
| "truthy (JBool b) = b"
| "truthy (JNum n) = (n \<noteq> 0)"
| "truthy (JStr s) = (s \<noteq> [])"
| "truthy (JArr xs) = True"
| "truthy (JObj kvs) = True"

subsection \<open>The state of the service\<close>

text \<open>An entry of \<open>requestCache\<close>: \<open>{ data: any; timestamp: number }\<close>.\<close>

record cache_entry =
  data :: json
  timestamp :: int

text \<open>
  The fields of the class. \<open>accessToken\<close> is \<open>string | null\<close>. \<open>requestCache\<close> is a
  JavaScript \<open>Map\<close>, which keeps its keys in insertion order: an association list
  read with \<open>map_of\<close> and written with \<open>AList.update\<close> (a key that is present keeps
  its place, a new key goes to the end).
\<close>

record IGDBService =
  clientId :: string
  clientSecret :: string
  accessToken :: "string option"
  tokenExpiry :: int
  requestCache :: "(string \<times> cache_entry) list"

definition CACHE_DURATION :: int where
  "CACHE_DURATION = 5 * 60 * 1000"

text \<open>
  Every failure the source raises itself is \<open>throw new Error(message)\<close>. Reading a
  property of \<open>null\<close> makes the runtime throw a \<open>TypeError\<close>, whose message is the
  engine's.
\<close>

datatype error = Error string | TypeError

subsection \<open>Double arithmetic on integral values\<close>

text \<open>
  A double has a significand of 53 bits. Every integer of magnitude up to \<open>2\<^sup>5\<^sup>3\<close> is a
  double; a larger integer is a double only if it is a 53-bit integer times a power of
  two. \<open>nearest_double\<close> rounds an integer to the nearest double, a tie going to the even
  significand: it drops the \<open>excess_bits\<close> low bits and rounds on what was dropped.
  JavaScript computes a sum, a difference or a product of two doubles as the double
  nearest to the exact result, and reads a JSON number as the double nearest to it.
  (Magnitudes of \<open>2\<^sup>1\<^sup>0\<^sup>2\<^sup>4\<close> and more, which become \<open>Infinity\<close>, do not arise from
  the values this model computes with: a 64-bit lifetime and epoch milliseconds.)
\<close>

fun excess_bits :: "nat \<Rightarrow> nat" where
  "excess_bits a = (if a < 2 ^ 53 then 0 else Suc (excess_bits (a div 2)))"

declare excess_bits.simps [simp del]

definition nearest_double :: "int \<Rightarrow> int" where
  "nearest_double x =
     (let a = nat \<bar>x\<bar>;
          e = excess_bits a;
          q = a div 2 ^ e;
          r = a mod 2 ^ e;
          q' = (if 2 * r > 2 ^ e \<or> (2 * r = 2 ^ e \<and> odd q) then q + 1 else q)
      in sgn x * int (q' * 2 ^ e))"

definition js_add :: "int \<Rightarrow> int \<Rightarrow> int" where
  "js_add a b = nearest_double (a + b)"

definition js_sub :: "int \<Rightarrow> int \<Rightarrow> int" where
  "js_sub a b = nearest_double (a - b)"

definition js_mul :: "int \<Rightarrow> int \<Rightarrow> int" where
  "js_mul a b = nearest_double (a * b)"

subsection \<open>The outside world: clock and network\<close>

text \<open>
  What the identity provider answers to a token exchange: a body with \<open>access_token\<close>
  and \<open>expires_in\<close>, or any failure (transport error, status outside 2xx, no body at
  all), which the \<open>catch\<close> of \<open>getAccessToken\<close> treats alike. The token is any string,
  the empty one included. The lifetime \<open>expires_in\<close> is a whole number of seconds that
  fits 64 bits, signed; the client receives the double nearest to it. A body of another
  shape (a field missing, a lifetime with a fraction) is not in the model.
\<close>

datatype token_reply = TokenResolved string "64 word" | TokenRejected

definition reported_lifetime :: "64 word \<Rightarrow> int" where
  "reported_lifetime expires_in = nearest_double (sint expires_in)"

text \<open>
  What the data endpoint answers: the parsed body, or a rejection, of which the source
  reads \<open>error.response?.status\<close> and \<open>error.code\<close>.
\<close>

datatype data_reply = DataResolved json | DataRejected "int option" "string option"

text \<open>
  An outbound request: the token exchange with its \<open>client_id\<close> and \<open>client_secret\<close>,
  or the data POST with its endpoint, its body, its \<open>Client-ID\<close> header and its bearer
  token.
\<close>

datatype request = TokenPost string string | DataPost string string string string

text \<open>
  The world supplies the successive readings of \<open>Date.now()\<close> and the replies of the two
  remote parties, each reply a function of all the requests sent so far. The readings are
  any sequence of integers: the clock need not advance. (A reading of \<open>Date.now()\<close> is a
  time value, an integer of magnitude at most 8640000000000000, which is a double.) The
  world records how many times the clock was read, which requests were sent, in order,
  and for each request how many readings of the clock had been taken when it was sent:
  the reading with that number is the first one taken after the request and its reply.
\<close>

record world =
  clock :: "nat \<Rightarrow> int"
  ticks :: nat
  identity_provider :: "request list \<Rightarrow> token_reply"
  api_host :: "request list \<Rightarrow> data_reply"
  sent :: "request list"
  sent_at :: "nat list"

definition Date_now :: "world \<Rightarrow> int \<times> world" where
  "Date_now w = (clock w (ticks w), w\<lparr>ticks := Suc (ticks w)\<rparr>)"

definition post_token :: "string \<Rightarrow> string \<Rightarrow> world \<Rightarrow> token_reply \<times> world" where
  "post_token cid secret w =
     (let h = sent w @ [TokenPost cid secret]
      in (identity_provider w h, w\<lparr>sent := h, sent_at := sent_at w @ [ticks w]\<rparr>))"

definition post_data :: "string \<Rightarrow> string \<Rightarrow> string \<Rightarrow> string \<Rightarrow> world \<Rightarrow> data_reply \<times> world" where
  "post_data endpoint query cid token w =
     (let h = sent w @ [DataPost endpoint query cid token]
      in (api_host w h, w\<lparr>sent := h, sent_at := sent_at w @ [ticks w]\<rparr>))"

fun is_data_post :: "request \<Rightarrow> bool" where
  "is_data_post (DataPost e q c t) = True"
| "is_data_post (TokenPost c s) = False"

text \<open>The number of data requests sent so far.\<close>

definition data_posts :: "world \<Rightarrow> nat" where
  "data_posts w = length (filter is_data_post (sent w))"

section \<open>Construction, token and cache\<close>

text \<open>
  The constructor reads the two settings, each possibly unset:
  \<open>process.env.IGDB_CLIENT_ID || ''\<close>.
\<close>

definition or_empty :: "string option \<Rightarrow> string" where
  "or_empty v = (case v of None \<Rightarrow> [] | Some x \<Rightarrow> x)"

definition constructor :: "string option \<Rightarrow> string option \<Rightarrow> IGDBService" where
  "constructor env_id env_secret =
     \<lparr>clientId = or_empty env_id, clientSecret = or_empty env_secret,
      accessToken = None, tokenExpiry = 0, requestCache = []\<rparr>"

definition isConfigured :: "IGDBService \<Rightarrow> bool" where
  "isConfigured s = (clientId s \<noteq> [] \<and> clientSecret s \<noteq> [])"

definition credentials_error :: error where
  "credentials_error = Error ''IGDB credentials not configured. Please set IGDB_CLIENT_ID and IGDB_CLIENT_SECRET in your .env.local file.''"

definition token_exchange_error :: error where
  "token_exchange_error = Error ''Failed to authenticate with IGDB. Please check your credentials.''"

definition rate_limit_error :: error where
  "rate_limit_error = Error ''IGDB rate limit exceeded. Please try again later.''"

definition unauthorized_error :: error where
  "unauthorized_error = Error ''Authentication failed. Please check your IGDB credentials.''"

definition timeout_error :: error where
  "timeout_error = Error ''Request timeout. Please try again.''"

definition upstream_error :: "string \<Rightarrow> error" where
  "upstream_error endpoint =
     Error (''Failed to fetch data from IGDB '' @ endpoint @ ''. Please try again later.'')"

text \<open>
  The source has one error class and tells its failures apart by their messages only.
  The specification names six kinds of failure; \<open>kind_of\<close> gives the kind the
  specification assigns to each message of the source: missing credentials; bad caller
  input (empty query or slug, identifier that is not positive); failed token exchange or
  status 401; status 429; client-side timeout; and, for anything else, the
  specification's catch-all.
\<close>

datatype error_kind =
    ConfigurationError
  | ValidationError
  | AuthenticationError
  | RateLimitError
  | TimeoutError
  | UpstreamError

definition kind_of :: "error \<Rightarrow> error_kind" where
  "kind_of e =
     (if e = credentials_error then ConfigurationError
      else if e \<in> set [Error ''Search query cannot be empty'', Error ''Invalid game ID'',
                        Error ''Game slug cannot be empty'', Error ''Invalid genre ID'',
                        Error ''Invalid platform ID''] then ValidationError
      else if e = token_exchange_error \<or> e = unauthorized_error then AuthenticationError
      else if e = rate_limit_error then RateLimitError
      else if e = timeout_error then TimeoutError
      else UpstreamError)"

text \<open>
  The test \<open>this.accessToken && Date.now() < this.tokenExpiry\<close>: the clock is read only
  when the token is truthy (neither \<open>null\<close> nor the empty string). The result is the
  token to reuse, if any.
\<close>

definition reusable_token :: "IGDBService \<Rightarrow> world \<Rightarrow> string option \<times> world" where
  "reusable_token s w =
     (case accessToken s of
        None \<Rightarrow> (None, w)
      | Some t \<Rightarrow>
          if t = [] then (None, w)
          else (let (now, w1) = Date_now w
                in if now < tokenExpiry s then (Some t, w1) else (None, w1)))"

definition getAccessToken :: "IGDBService \<Rightarrow> world \<Rightarrow> (error + string) \<times> IGDBService \<times> world" where
  "getAccessToken s w =
     (if clientId s = [] \<or> clientSecret s = [] then (Inl credentials_error, s, w)
      else
        (case reusable_token s w of
           (Some t, w1) \<Rightarrow> (Inr t, s, w1)
         | (None, w1) \<Rightarrow>
             (case post_token (clientId s) (clientSecret s) w1 of
                (TokenResolved access_token expires_in, w2) \<Rightarrow>
                  (let s1 = s\<lparr>accessToken := Some access_token\<rparr>;
                       (now, w3) = Date_now w2;
                       s2 = s1\<lparr>tokenExpiry :=
                              js_sub (js_add now (js_mul (reported_lifetime expires_in) 1000)) 60000\<rparr>
                   in (Inr access_token, s2, w3))
              | (TokenRejected, w2) \<Rightarrow> (Inl token_exchange_error, s, w2))))"

definition getCacheKey :: "string \<Rightarrow> string \<Rightarrow> string" where
  "getCacheKey endpoint query = endpoint @ '':'' @ query"

text \<open>
  \<open>getCachedData\<close> answers the stored payload, or \<open>null\<close>; the clock is read only when
  the key is present. The age \<open>Date.now() - cached.timestamp\<close> is a difference of two
  clock readings; rounding it to a double is monotone and leaves the bound 300000 fixed,
  so the exact difference decides the comparison.
\<close>

definition getCachedData :: "string \<Rightarrow> IGDBService \<Rightarrow> world \<Rightarrow> json \<times> world" where
  "getCachedData cacheKey s w =
     (case map_of (requestCache s) cacheKey of
        None \<Rightarrow> (JNull, w)
      | Some cached \<Rightarrow>
          (let (now, w1) = Date_now w
           in if now - timestamp cached < CACHE_DURATION then (data cached, w1)
              else (JNull, w1)))"

definition setCachedData :: "string \<Rightarrow> json \<Rightarrow> IGDBService \<Rightarrow> world \<Rightarrow> IGDBService \<times> world" where
  "setCachedData cacheKey d s w =
     (let (now, w1) = Date_now w
      in (s\<lparr>requestCache :=
              AList.update cacheKey \<lparr>data = d, timestamp = now\<rparr> (requestCache s)\<rparr>, w1))"

text \<open>
  The \<open>catch\<close> of \<open>makeRequest\<close>: the status 429 first, then 401 (which clears the token
  and its expiry), then the client-side timeout, then everything else.
\<close>

definition on_rejected ::
  "string \<Rightarrow> int option \<Rightarrow> string option \<Rightarrow> IGDBService \<Rightarrow> error \<times> IGDBService" where
  "on_rejected endpoint status code s =
     (if status = Some 429 then (rate_limit_error, s)
      else if status = Some 401 then
        (unauthorized_error, s\<lparr>accessToken := None, tokenExpiry := 0\<rparr>)
      else if code = Some ''ECONNABORTED'' then (timeout_error, s)
      else (upstream_error endpoint, s))"

definition makeRequest ::
  "string \<Rightarrow> string \<Rightarrow> IGDBService \<Rightarrow> world \<Rightarrow> (error + json) \<times> IGDBService \<times> world" where
  "makeRequest endpoint query s w =
     (let cacheKey = getCacheKey endpoint query;
          (cachedData, w1) = getCachedData cacheKey s w
      in if truthy cachedData then (Inr cachedData, s, w1)
         else
           (case getAccessToken s w1 of
              (Inl e, s2, w2) \<Rightarrow> (Inl e, s2, w2)
            | (Inr token, s2, w2) \<Rightarrow>
                (case post_data endpoint query (clientId s2) token w2 of
                   (DataResolved d, w3) \<Rightarrow>
                     (let (s4, w4) = setCachedData cacheKey d s2 w3
                      in (Inr d, s4, w4))
                 | (DataRejected status code, w3) \<Rightarrow>
                     (let (e, s4) = on_rejected endpoint status code s2
                      in (Inl e, s4, w3)))))"

definition makeCustomRequest ::
  "string \<Rightarrow> string \<Rightarrow> IGDBService \<Rightarrow> world \<Rightarrow> (error + json) \<times> IGDBService \<times> world" where
  "makeCustomRequest endpoint query s w = makeRequest endpoint query s w"

definition clearCache :: "IGDBService \<Rightarrow> IGDBService" where
  "clearCache s = s\<lparr>requestCache := []\<rparr>"

record cache_stats =
  size_of :: nat
  keys_of :: "string list"

definition getCacheStats :: "IGDBService \<Rightarrow> cache_stats" where
  "getCacheStats s =
     \<lparr>size_of = length (requestCache s), keys_of = map fst (requestCache s)\<rparr>"

section \<open>The convenience query methods\<close>

subsection \<open>Strings and numbers in the query templates\<close>

text \<open>
  \<open>String.prototype.trim\<close> removes white space and line terminators at both ends; among
  the code points below U+0100 these are TAB, LF, VT, FF, CR, SP and NBSP.
\<close>

definition is_white_space :: "char \<Rightarrow> bool" where
  "is_white_space c = (c \<in> set [CHR 0x09, CHR 0x0A, CHR 0x0B, CHR 0x0C, CHR 0x0D, CHR 0x20, CHR 0xA0])"

definition trim :: "string \<Rightarrow> string" where
  "trim s = rev (dropWhile is_white_space (rev (dropWhile is_white_space s)))"

text \<open>
  A number as a caller passes it to a method (\<open>limit\<close>, \<open>id\<close>, \<open>genreId\<close>,
  \<open>platformId\<close>): \<open>NaN\<close>, an infinity, or a finite value. The finite values of the model
  are the integers from \<open>-2\<^sup>5\<^sup>3\<close> to \<open>2\<^sup>5\<^sup>3 - 1\<close>, read off a 54-bit word with \<open>sint\<close>:
  each is a double, and a template literal prints each with all its decimal digits.
  Fractions and larger magnitudes are not in the model.
\<close>

datatype number = NaN | PosInfinity | NegInfinity | Finite "54 word"

text \<open>\<open>a <= b\<close>: false when either side is \<open>NaN\<close>.\<close>

fun number_le :: "number \<Rightarrow> number \<Rightarrow> bool" where
  "number_le NaN b = False"
| "number_le a NaN = False"
| "number_le NegInfinity b = True"
| "number_le a PosInfinity = True"
| "number_le (Finite x) (Finite y) = (sint x \<le> sint y)"
| "number_le PosInfinity b = False"
| "number_le a NegInfinity = False"

text \<open>\<open>!n\<close>: a number is falsy when it is \<open>NaN\<close> or zero.\<close>

definition falsy_number :: "number \<Rightarrow> bool" where
  "falsy_number n = (n = NaN \<or> n = Finite 0)"

text \<open>\<open>Math.min(a, b)\<close>: \<open>NaN\<close> when either argument is, the smaller one otherwise.\<close>

definition Math_min :: "number \<Rightarrow> number \<Rightarrow> number" where
  "Math_min a b = (if a = NaN \<or> b = NaN then NaN else if number_le a b then a else b)"

text \<open>How a template literal renders an integer: in decimal, with a minus sign.\<close>

fun digits :: "nat \<Rightarrow> string" where
  "digits n =
     (if n < 10 then [''0123456789'' ! n]
      else digits (n div 10) @ [''0123456789'' ! (n mod 10)])"

declare digits.simps [simp del]

definition integer_string :: "int \<Rightarrow> string" where
  "integer_string i = (if i < 0 then ''-'' @ digits (nat (- i)) else digits (nat i))"

text \<open>How a template literal renders a number.\<close>

fun number_string :: "number \<Rightarrow> string" where
  "number_string NaN = ''NaN''"
| "number_string PosInfinity = ''Infinity''"
| "number_string NegInfinity = ''-Infinity''"
| "number_string (Finite x) = integer_string (sint x)"

text \<open>The two field lists of the templates, as the source spells them.\<close>

definition search_fields :: string where
  "search_fields = ''fields name,slug,summary,storyline,rating,rating_count,first_release_date,cover.url,genres.name,platforms.name;''"

definition game_fields :: string where
  "game_fields = ''fields name,slug,summary,storyline,rating,rating_count,first_release_date,cover.url,genres.name,platforms.name,screenshots.url,videos.video_id,age_ratings.category,age_ratings.rating,game_modes.name,player_perspectives.name,websites.category,websites.url,similar_games.name,similar_games.cover.url,dlcs.name,dlcs.cover.url,expansions.name,expansions.cover.url,standalone_expansions.name,standalone_expansions.cover.url;''"

text \<open>A default parameter \<open>limit: number = 20\<close>: an argument that may be left out.\<close>

definition limit_or_default :: "number option \<Rightarrow> number" where
  "limit_or_default limit = (case limit of None \<Rightarrow> Finite 20 | Some l \<Rightarrow> l)"

subsection \<open>The templates\<close>

definition search_query :: "string \<Rightarrow> number \<Rightarrow> string" where
  \<open>search_query query limit =
     ''\<newline>      '' @ search_fields @
     ''\<newline>      where version_parent = null & category = 0 & name ~ *"'' @ query @ ''"*;'' @
     ''\<newline>      limit '' @ number_string (Math_min limit (Finite 50)) @ '';'' @
     ''\<newline>      sort rating desc;'' @
     ''\<newline>    ''\<close>

definition popular_query :: "number \<Rightarrow> string" where
  \<open>popular_query limit =
     ''\<newline>      '' @ game_fields @
     ''\<newline>      where rating_count > 100 & version_parent = null & category = 0;'' @
     ''\<newline>      sort rating desc;'' @
     ''\<newline>      limit '' @ number_string (Math_min limit (Finite 50)) @ '';'' @
     ''\<newline>    ''\<close>

definition id_query :: "number \<Rightarrow> string" where
  \<open>id_query ident =
     ''\<newline>      '' @ game_fields @
     ''\<newline>      where id = '' @ number_string ident @ '';'' @
     ''\<newline>    ''\<close>

definition slug_query :: "string \<Rightarrow> string" where
  \<open>slug_query slug =
     ''\<newline>      '' @ game_fields @
     ''\<newline>      where slug = "'' @ slug @ ''";'' @
     ''\<newline>    ''\<close>

definition names_query :: string where
  \<open>names_query =
     ''\<newline>      fields name;'' @
     ''\<newline>      sort name asc;'' @
     ''\<newline>      limit 50;'' @
     ''\<newline>    ''\<close>

definition genre_query :: "number \<Rightarrow> number \<Rightarrow> string" where
  \<open>genre_query genreId limit =
     ''\<newline>      '' @ game_fields @
     ''\<newline>      where genres = '' @ number_string genreId @ '' & version_parent = null & category = 0;'' @
     ''\<newline>      sort rating desc;'' @
     ''\<newline>      limit '' @ number_string (Math_min limit (Finite 50)) @ '';'' @
     ''\<newline>    ''\<close>

definition platform_query :: "number \<Rightarrow> number \<Rightarrow> string" where
  \<open>platform_query platformId limit =
     ''\<newline>      '' @ game_fields @
     ''\<newline>      where platforms = '' @ number_string platformId @ '' & version_parent = null & category = 0;'' @
     ''\<newline>      sort rating desc;'' @
     ''\<newline>      limit '' @ number_string (Math_min limit (Finite 50)) @ '';'' @
     ''\<newline>    ''\<close>

subsection \<open>The methods\<close>

definition searchGames ::
  "string \<Rightarrow> number option \<Rightarrow> IGDBService \<Rightarrow> world \<Rightarrow> (error + json) \<times> IGDBService \<times> world" where
  "searchGames query limit s w =
     (if trim query = [] then (Inl (Error ''Search query cannot be empty''), s, w)
      else makeRequest ''games'' (search_query query (limit_or_default limit)) s w)"

definition getPopularGames ::
  "number option \<Rightarrow> IGDBService \<Rightarrow> world \<Rightarrow> (error + json) \<times> IGDBService \<times> world" where
  "getPopularGames limit s w =
     makeRequest ''games'' (popular_query (limit_or_default limit)) s w"

text \<open>
  \<open>games.length > 0 ? games[0] : null\<close>. \<open>makeRequest\<close> is declared to return an array,
  but hands on whatever the endpoint sent. On an array this is the first element, or
  \<open>null\<close> for the empty array. On \<open>null\<close> the property read throws a \<open>TypeError\<close>. A
  boolean and a number have no \<open>length\<close>, and \<open>undefined > 0\<close> is false: the answer
  is \<open>null\<close>. A string has its length, and its first character as a string at index 0.

  An object has the properties its keys name, the last of two equal keys being the one
  \<open>JSON.parse\<close> keeps. Without a \<open>length\<close> the answer is \<open>null\<close>. With one, its value is
  compared with 0 as a number: \<open>null\<close> counts as 0, \<open>false\<close> as 0, \<open>true\<close> as 1, an
  object as \<open>NaN\<close>; when it is positive the answer is the property \<open>0\<close>. Two cases are
  outside this model, and the answer is \<open>None\<close>: a \<open>length\<close> that is a string or an array,
  whose comparison goes through the parsing of a string as a number, and a positive
  \<open>length\<close> with no property \<open>0\<close>, where the answer is \<open>undefined\<close>.
\<close>

definition property :: "(string \<times> json) list \<Rightarrow> string \<Rightarrow> json option" where
  "property kvs k = map_of (rev kvs) k"

fun positive_number :: "json \<Rightarrow> bool option" where
  "positive_number JNull = Some False"
| "positive_number (JBool b) = Some b"
| "positive_number (JNum n) = Some (0 < n)"
| "positive_number (JObj kvs) = Some False"
| "positive_number (JStr s) = None"
| "positive_number (JArr xs) = None"

fun first_or_null :: "json \<Rightarrow> (error + json) option" where
  "first_or_null (JArr xs) = Some (Inr (if length xs > 0 then xs ! 0 else JNull))"
| "first_or_null JNull = Some (Inl TypeError)"
| "first_or_null (JBool b) = Some (Inr JNull)"
| "first_or_null (JNum n) = Some (Inr JNull)"
| "first_or_null (JStr s) = Some (Inr (if length s > 0 then JStr [s ! 0] else JNull))"
| "first_or_null (JObj kvs) =
     (case property kvs ''length'' of
        None \<Rightarrow> Some (Inr JNull)
      | Some v \<Rightarrow>
          (case positive_number v of
             None \<Rightarrow> None
           | Some False \<Rightarrow> Some (Inr JNull)
           | Some True \<Rightarrow> map_option Inr (property kvs ''0'')))"

definition single_result ::
  "(error + json) \<times> IGDBService \<times> world \<Rightarrow> (error + json) option \<times> IGDBService \<times> world" where
  "single_result r =
     (case r of
        (Inl e, s', w') \<Rightarrow> (Some (Inl e), s', w')
      | (Inr games, s', w') \<Rightarrow> (first_or_null games, s', w'))"

definition getGameById ::
  "number \<Rightarrow> IGDBService \<Rightarrow> world \<Rightarrow> (error + json) option \<times> IGDBService \<times> world" where
  "getGameById ident s w =
     (if falsy_number ident \<or> number_le ident (Finite 0)
      then (Some (Inl (Error ''Invalid game ID'')), s, w)
      else single_result (makeRequest ''games'' (id_query ident) s w))"

definition getGameBySlug ::
  "string \<Rightarrow> IGDBService \<Rightarrow> world \<Rightarrow> (error + json) option \<times> IGDBService \<times> world" where
  "getGameBySlug slug s w =
     (if trim slug = [] then (Some (Inl (Error ''Game slug cannot be empty'')), s, w)
      else single_result (makeRequest ''games'' (slug_query slug) s w))"

definition getGenres :: "IGDBService \<Rightarrow> world \<Rightarrow> (error + json) \<times> IGDBService \<times> world" where
  "getGenres s w = makeRequest ''genres'' names_query s w"

definition getPlatforms :: "IGDBService \<Rightarrow> world \<Rightarrow> (error + json) \<times> IGDBService \<times> world" where
  "getPlatforms s w = makeRequest ''platforms'' names_query s w"

definition getGamesByGenre ::
  "number \<Rightarrow> number option \<Rightarrow> IGDBService \<Rightarrow> world \<Rightarrow> (error + json) \<times> IGDBService \<times> world" where
  "getGamesByGenre genreId limit s w =
     (if falsy_number genreId \<or> number_le genreId (Finite 0)
      then (Inl (Error ''Invalid genre ID''), s, w)
      else makeRequest ''games'' (genre_query genreId (limit_or_default limit)) s w)"

definition getGamesByPlatform ::
  "number \<Rightarrow> number option \<Rightarrow> IGDBService \<Rightarrow> world \<Rightarrow> (error + json) \<times> IGDBService \<times> world" where
  "getGamesByPlatform platformId limit s w =
     (if falsy_number platformId \<or> number_le platformId (Finite 0)
      then (Inl (Error ''Invalid platform ID''), s, w)
      else makeRequest ''games'' (platform_query platformId (limit_or_default limit)) s w)"

subsection \<open>Calls of the public methods\<close>

text \<open>
  One constructor per public method that queries the remote API, with its arguments, so
  that a statement can range over all of them; \<open>invoke\<close> runs the method.
\<close>

datatype call =
    SearchGames string "number option"
  | GetPopularGames "number option"
  | GetGameById number
  | GetGameBySlug string
  | GetGenres
  | GetPlatforms
  | GetGamesByGenre number "number option"
  | GetGamesByPlatform number "number option"
  | MakeCustomRequest string string

definition whole_result ::
  "(error + json) \<times> IGDBService \<times> world \<Rightarrow> (error + json) option \<times> IGDBService \<times> world" where
  "whole_result r = (case r of (x, s', w') \<Rightarrow> (Some x, s', w'))"

fun invoke :: "call \<Rightarrow> IGDBService \<Rightarrow> world \<Rightarrow> (error + json) option \<times> IGDBService \<times> world" where
  "invoke (SearchGames query limit) s w = whole_result (searchGames query limit s w)"
| "invoke (GetPopularGames limit) s w = whole_result (getPopularGames limit s w)"
| "invoke (GetGameById ident) s w = getGameById ident s w"
| "invoke (GetGameBySlug slug) s w = getGameBySlug slug s w"
| "invoke GetGenres s w = whole_result (getGenres s w)"
| "invoke GetPlatforms s w = whole_result (getPlatforms s w)"
| "invoke (GetGamesByGenre genreId limit) s w = whole_result (getGamesByGenre genreId limit s w)"
| "invoke (GetGamesByPlatform platformId limit) s w =
     whole_result (getGamesByPlatform platformId limit s w)"
| "invoke (MakeCustomRequest endpoint query) s w = whole_result (makeCustomRequest endpoint query s w)"

text \<open>The check each method makes of its own arguments, and the error it throws.\<close>

fun rejects :: "call \<Rightarrow> error option" where
  "rejects (SearchGames query limit) =
     (if trim query = [] then Some (Error ''Search query cannot be empty'') else None)"
| "rejects (GetGameById ident) =
     (if falsy_number ident \<or> number_le ident (Finite 0)
      then Some (Error ''Invalid game ID'') else None)"
| "rejects (GetGameBySlug slug) =
     (if trim slug = [] then Some (Error ''Game slug cannot be empty'') else None)"
| "rejects (GetGamesByGenre genreId limit) =
     (if falsy_number genreId \<or> number_le genreId (Finite 0)
      then Some (Error ''Invalid genre ID'') else None)"
| "rejects (GetGamesByPlatform platformId limit) =
     (if falsy_number platformId \<or> number_le platformId (Finite 0)
      then Some (Error ''Invalid platform ID'') else None)"
| "rejects c = None"

text \<open>The endpoint and the query payload a call hands to \<open>makeRequest\<close>.\<close>

fun endpoint_of :: "call \<Rightarrow> string" where
  "endpoint_of GetGenres = ''genres''"
| "endpoint_of GetPlatforms = ''platforms''"
| "endpoint_of (MakeCustomRequest endpoint query) = endpoint"
| "endpoint_of c = ''games''"

fun query_of :: "call \<Rightarrow> string" where
  "query_of (SearchGames query limit) = search_query query (limit_or_default limit)"
| "query_of (GetPopularGames limit) = popular_query (limit_or_default limit)"
| "query_of (GetGameById ident) = id_query ident"
| "query_of (GetGameBySlug slug) = slug_query slug"
| "query_of GetGenres = names_query"
| "query_of GetPlatforms = names_query"
| "query_of (GetGamesByGenre genreId limit) = genre_query genreId (limit_or_default limit)"
| "query_of (GetGamesByPlatform platformId limit) =
     platform_query platformId (limit_or_default limit)"
| "query_of (MakeCustomRequest endpoint query) = query"

text \<open>What the caller receives of the payload: its first record or \<open>null\<close>, or all of it.\<close>

fun answer_of :: "call \<Rightarrow> json \<Rightarrow> (error + json) option" where
  "answer_of (GetGameById ident) d = first_or_null d"
| "answer_of (GetGameBySlug slug) d = first_or_null d"
| "answer_of c d = Some (Inr d)"

definition deliver ::
  "call \<Rightarrow> (error + json) \<times> IGDBService \<times> world \<Rightarrow> (error + json) option \<times> IGDBService \<times> world" where
  "deliver c r =
     (case r of
        (Inl e, s', w') \<Rightarrow> (Some (Inl e), s', w')
      | (Inr d, s', w') \<Rightarrow> (answer_of c d, s', w'))"

subsection \<open>Reachable states\<close>

text \<open>
  The states a service can be in: as constructed, and after any public call in any
  world.
\<close>

inductive reachable :: "IGDBService \<Rightarrow> bool" where
  constructed: "reachable (constructor env_id env_secret)"
| called: "reachable s \<Longrightarrow> invoke c s w = (r, s', w') \<Longrightarrow> reachable s'"
| cleared: "reachable s \<Longrightarrow> reachable (clearCache s)"

text \<open>
  \<open>after_other_calls key s s'\<close>: the state \<open>s'\<close> is reached from \<open>s\<close> by any number of
  public calls whose cache key is not \<open>key\<close>, each in any world.
\<close>

inductive after_other_calls :: "string \<Rightarrow> IGDBService \<Rightarrow> IGDBService \<Rightarrow> bool"
  for key :: string where
  no_call: "after_other_calls key s s"
| other_call: "after_other_calls key s s1 \<Longrightarrow> invoke c s1 w = (y, s2, w2) \<Longrightarrow>
     getCacheKey (endpoint_of c) (query_of c) \<noteq> key \<Longrightarrow> after_other_calls key s s2"

subsection \<open>Auxiliary notions\<close>

text \<open>
  A service is provisioned when it has both credentials, or else holds neither a token
  nor a cache entry: without credentials nothing is ever fetched.
\<close>

definition provisioned :: "IGDBService \<Rightarrow> bool" where
  "provisioned s = (isConfigured s \<or> (requestCache s = [] \<and> accessToken s = None))"

text \<open>A record of the remote schema is a JSON object.\<close>

fun is_record :: "json \<Rightarrow> bool" where
  "is_record (JObj kvs) = True"
| "is_record j = False"

text \<open>
  A world with a given clock in which each remote party gives one fixed reply; nothing
  has been sent and the clock has not been read.
\<close>

definition scripted_world :: "(nat \<Rightarrow> int) \<Rightarrow> token_reply \<Rightarrow> data_reply \<Rightarrow> world" where
  "scripted_world c tr dr =
     \<lparr>clock = c, ticks = 0, identity_provider = (\<lambda>h. tr), api_host = (\<lambda>h. dr), sent = [],
      sent_at = []\<rparr>"

section \<open>Basic facts about the model\<close>

text \<open>
  How each step of a request reads and changes the service and the world; these facts
  carry the properties below.
\<close>

lemma invoke_eq:
  "invoke c s w =
     (case rejects c of
        Some e \<Rightarrow> (Some (Inl e), s, w)
      | None \<Rightarrow> deliver c (makeRequest (endpoint_of c) (query_of c) s w))"
  by (cases c)
     (auto simp: searchGames_def getPopularGames_def getGameById_def getGameBySlug_def
        getGenres_def getPlatforms_def getGamesByGenre_def getGamesByPlatform_def
        makeCustomRequest_def whole_result_def deliver_def single_result_def
        split: prod.splits sum.splits)

lemma Date_now_simps [simp]:
  "fst (Date_now w) = clock w (ticks w)"
  "snd (Date_now w) = w\<lparr>ticks := Suc (ticks w)\<rparr>"
  by (simp_all add: Date_now_def)

lemma reusable_token_cases:
  "reusable_token s w =
     (if (\<exists>t. accessToken s = Some t \<and> t \<noteq> [])
      then (if clock w (ticks w) < tokenExpiry s then accessToken s else None,
            w\<lparr>ticks := Suc (ticks w)\<rparr>)
      else (None, w))"
  by (auto simp: reusable_token_def Date_now_def split: option.splits)

lemma getCachedData_cases:
  "getCachedData k s w =
     (case map_of (requestCache s) k of
        None \<Rightarrow> (JNull, w)
      | Some ce \<Rightarrow>
          (if clock w (ticks w) - timestamp ce < CACHE_DURATION then data ce else JNull,
           w\<lparr>ticks := Suc (ticks w)\<rparr>))"
  by (auto simp: getCachedData_def Date_now_def split: option.splits)

lemma getAccessToken_unconfigured:
  "\<not> isConfigured s \<Longrightarrow> getAccessToken s w = (Inl credentials_error, s, w)"
  by (auto simp: getAccessToken_def isConfigured_def)

lemma getAccessToken_reuse:
  "isConfigured s \<Longrightarrow> reusable_token s w = (Some t, w1) \<Longrightarrow>
   getAccessToken s w = (Inr t, s, w1)"
  by (auto simp: getAccessToken_def isConfigured_def)

lemma getAccessToken_exchange:
  "isConfigured s \<Longrightarrow> reusable_token s w = (None, w1) \<Longrightarrow>
   getAccessToken s w =
     (case identity_provider w1 (sent w1 @ [TokenPost (clientId s) (clientSecret s)]) of
        TokenResolved tok life \<Rightarrow>
          (Inr tok,
           s\<lparr>accessToken := Some tok,
             tokenExpiry :=
               js_sub (js_add (clock w1 (ticks w1)) (js_mul (reported_lifetime life) 1000)) 60000\<rparr>,
           w1\<lparr>sent := sent w1 @ [TokenPost (clientId s) (clientSecret s)],
              sent_at := sent_at w1 @ [ticks w1], ticks := Suc (ticks w1)\<rparr>)
      | TokenRejected \<Rightarrow>
          (Inl token_exchange_error, s,
           w1\<lparr>sent := sent w1 @ [TokenPost (clientId s) (clientSecret s)],
              sent_at := sent_at w1 @ [ticks w1]\<rparr>))"
  by (auto simp: getAccessToken_def isConfigured_def post_token_def Date_now_def Let_def
      split: token_reply.splits)

lemma getCachedData_frame:
  assumes "getCachedData k s w = (d, w1)"
  shows "sent w1 = sent w" "clock w1 = clock w" "identity_provider w1 = identity_provider w"
    "api_host w1 = api_host w" "data_posts w1 = data_posts w"
  using assms by (auto simp: getCachedData_cases data_posts_def split: option.splits)

lemma getAccessToken_frame:
  assumes "getAccessToken s w = (r, s', w')"
  shows "clock w' = clock w" "identity_provider w' = identity_provider w"
    "api_host w' = api_host w" "clientId s' = clientId s" "clientSecret s' = clientSecret s"
    "requestCache s' = requestCache s" "data_posts w' = data_posts w"
  using assms
  by (auto simp: getAccessToken_def reusable_token_cases post_token_def Date_now_def Let_def
      data_posts_def split: if_splits token_reply.splits)

lemma getAccessToken_Inr:
  assumes "getAccessToken s w = (Inr t, s', w')"
  shows "isConfigured s"
    and "sent w' = sent w \<or> sent w' = sent w @ [TokenPost (clientId s) (clientSecret s)]"
  using assms
  by (auto simp: getAccessToken_def reusable_token_cases post_token_def Date_now_def Let_def
      isConfigured_def split: if_splits token_reply.splits)

lemma getAccessToken_Inl:
  assumes "getAccessToken s w = (Inl e, s', w')"
  shows "s' = s"
    and "(\<not> isConfigured s \<and> e = credentials_error \<and> w' = w) \<or>
         (isConfigured s \<and> e = token_exchange_error \<and>
          sent w' = sent w @ [TokenPost (clientId s) (clientSecret s)])"
  using assms
  by (auto simp: getAccessToken_def reusable_token_cases post_token_def Date_now_def Let_def
      isConfigured_def split: if_splits token_reply.splits)

lemma makeRequest_hit:
  assumes "getCachedData (getCacheKey e q) s w = (d, w1)" and "truthy d"
  shows "makeRequest e q s w = (Inr d, s, w1)"
  using assms by (simp add: makeRequest_def)

lemma makeRequest_no_token:
  assumes "getCachedData (getCacheKey e q) s w = (d, w1)" and "\<not> truthy d"
    and "getAccessToken s w1 = (Inl err, s2, w2)"
  shows "makeRequest e q s w = (Inl err, s2, w2)"
  using assms by (simp add: makeRequest_def)

lemma makeRequest_resolved:
  assumes "getCachedData (getCacheKey e q) s w = (d, w1)" and "\<not> truthy d"
    and "getAccessToken s w1 = (Inr token, s2, w2)"
    and "api_host w2 (sent w2 @ [DataPost e q (clientId s2) token]) = DataResolved d'"
  shows "makeRequest e q s w =
     (Inr d',
      s2\<lparr>requestCache :=
            AList.update (getCacheKey e q) \<lparr>data = d', timestamp = clock w2 (ticks w2)\<rparr>
              (requestCache s2)\<rparr>,
      w2\<lparr>sent := sent w2 @ [DataPost e q (clientId s2) token],
           sent_at := sent_at w2 @ [ticks w2], ticks := Suc (ticks w2)\<rparr>)"
  using assms by (simp add: makeRequest_def post_data_def setCachedData_def Date_now_def)

lemma makeRequest_rejected:
  assumes "getCachedData (getCacheKey e q) s w = (d, w1)" and "\<not> truthy d"
    and "getAccessToken s w1 = (Inr token, s2, w2)"
    and "api_host w2 (sent w2 @ [DataPost e q (clientId s2) token]) = DataRejected status code"
  shows "makeRequest e q s w =
     (Inl (fst (on_rejected e status code s2)), snd (on_rejected e status code s2),
      w2\<lparr>sent := sent w2 @ [DataPost e q (clientId s2) token],
           sent_at := sent_at w2 @ [ticks w2]\<rparr>)"
  using assms by (simp add: makeRequest_def post_data_def split: prod.splits)

lemma makeRequest_cases [consumes 1, case_names Hit NoToken Resolved Rejected]:
  assumes run: "makeRequest e q s w = (r, s', w')"
  obtains
    (Hit) d where "getCachedData (getCacheKey e q) s w = (d, w')" "truthy d"
      "r = Inr d" "s' = s"
  | (NoToken) d w1 err where "getCachedData (getCacheKey e q) s w = (d, w1)" "\<not> truthy d"
      "getAccessToken s w1 = (Inl err, s', w')" "r = Inl err"
  | (Resolved) d w1 token s2 w2 d' where
      "getCachedData (getCacheKey e q) s w = (d, w1)" "\<not> truthy d"
      "getAccessToken s w1 = (Inr token, s2, w2)"
      "api_host w (sent w') = DataResolved d'"
      "r = Inr d'"
      "s' = s2\<lparr>requestCache :=
            AList.update (getCacheKey e q) \<lparr>data = d', timestamp = clock w (ticks w2)\<rparr>
              (requestCache s)\<rparr>"
      "w' = w2\<lparr>sent := sent w2 @ [DataPost e q (clientId s) token],
           sent_at := sent_at w2 @ [ticks w2], ticks := Suc (ticks w2)\<rparr>"
  | (Rejected) d w1 token s2 w2 status code where
      "getCachedData (getCacheKey e q) s w = (d, w1)" "\<not> truthy d"
      "getAccessToken s w1 = (Inr token, s2, w2)"
      "api_host w (sent w') = DataRejected status code"
      "r = Inl (fst (on_rejected e status code s2))"
      "s' = snd (on_rejected e status code s2)"
      "w' = w2\<lparr>sent := sent w2 @ [DataPost e q (clientId s) token],
           sent_at := sent_at w2 @ [ticks w2]\<rparr>"
proof -
  obtain d w1 where look: "getCachedData (getCacheKey e q) s w = (d, w1)"
    by (cases "getCachedData (getCacheKey e q) s w")
  show thesis
  proof (cases "truthy d")
    case True
    from makeRequest_hit [OF look True] run
    have "r = Inr d" and "s' = s" and "w' = w1" by simp_all
    with look True show thesis by (intro Hit [of d]) simp_all
  next
    case False
    obtain x s2 w2 where tok: "getAccessToken s w1 = (x, s2, w2)"
      by (cases "getAccessToken s w1")
    note fr = getAccessToken_frame [OF tok] getCachedData_frame [OF look]
    show thesis
    proof (cases x)
      case (Inl err)
      from makeRequest_no_token [OF look False tok [unfolded Inl]] run
      have "r = Inl err" and "s' = s2" and "w' = w2" by simp_all
      with look False tok Inl show thesis by (intro NoToken [of d w1 err]) simp_all
    next
      case (Inr token)
      show thesis
      proof (cases "api_host w2 (sent w2 @ [DataPost e q (clientId s2) token])")
        case (DataResolved d')
        from makeRequest_resolved [OF look False tok [unfolded Inr] DataResolved] run
        have "r = Inr d'"
          and "s' = s2\<lparr>requestCache :=
            AList.update (getCacheKey e q) \<lparr>data = d', timestamp = clock w2 (ticks w2)\<rparr>
              (requestCache s2)\<rparr>"
          and "w' = w2\<lparr>sent := sent w2 @ [DataPost e q (clientId s2) token],
           sent_at := sent_at w2 @ [ticks w2], ticks := Suc (ticks w2)\<rparr>"
          by simp_all
        with DataResolved fr show thesis
          by (intro Resolved [OF look False tok [unfolded Inr]]) simp_all
      next
        case (DataRejected status code)
        from makeRequest_rejected [OF look False tok [unfolded Inr] DataRejected] run
        have "r = Inl (fst (on_rejected e status code s2))"
          and "s' = snd (on_rejected e status code s2)"
          and "w' = w2\<lparr>sent := sent w2 @ [DataPost e q (clientId s2) token],
           sent_at := sent_at w2 @ [ticks w2]\<rparr>"
          by simp_all
        with DataRejected fr show thesis
          by (intro Rejected [OF look False tok [unfolded Inr]]) simp_all
      qed
    qed
  qed
qed

lemma data_posts_after_post [simp]:
  "data_posts (w\<lparr>sent := sent w @ [DataPost e q c t], sent_at := m, ticks := n\<rparr>) =
     Suc (data_posts w)"
  "data_posts (w\<lparr>sent := sent w @ [DataPost e q c t], sent_at := m\<rparr>) = Suc (data_posts w)"
  by (simp_all add: data_posts_def)

text \<open>Below \<open>2\<^sup>5\<^sup>3\<close> in magnitude every integer is a double, and nothing is rounded.\<close>

lemma nearest_double_exact: "\<bar>x\<bar> < 2 ^ 53 \<Longrightarrow> nearest_double x = x"
  by (simp add: nearest_double_def excess_bits.simps [of "nat \<bar>x\<bar>"] Let_def
      nat_less_iff) (auto simp: sgn_if)

lemma reported_lifetime_exact:
  "\<bar>sint life\<bar> < 2 ^ 53 \<Longrightarrow> reported_lifetime life = sint life"
  by (simp add: reported_lifetime_def nearest_double_exact)

lemmas run_defs = makeRequest_def getCachedData_def getAccessToken_def reusable_token_def
  post_token_def post_data_def setCachedData_def on_rejected_def Date_now_def data_posts_def
  getCacheKey_def constructor_def or_empty_def scripted_world_def CACHE_DURATION_def
  js_add_def js_sub_def js_mul_def reported_lifetime_def nearest_double_exact

lemma deliver_state: "deliver c (x, s', w') = (y, s'', w'') \<Longrightarrow> s'' = s' \<and> w'' = w'"
  by (auto simp: deliver_def split: sum.splits)

lemma invoke_cases [consumes 1, case_names Refused Requested]:
  assumes "invoke c s w = (y, s', w')"
  obtains
    (Refused) err where "rejects c = Some err" "y = Some (Inl err)" "s' = s" "w' = w"
  | (Requested) r where "rejects c = None"
      "makeRequest (endpoint_of c) (query_of c) s w = (r, s', w')"
      "y = (case r of Inl err \<Rightarrow> Some (Inl err) | Inr d \<Rightarrow> answer_of c d)"
proof (cases "rejects c")
  case None
  obtain r s1 w1 where run: "makeRequest (endpoint_of c) (query_of c) s w = (r, s1, w1)"
    by (cases "makeRequest (endpoint_of c) (query_of c) s w")
  with None assms have "deliver c (r, s1, w1) = (y, s', w')" by (simp add: invoke_eq)
  then have "s' = s1" "w' = w1"
    "y = (case r of Inl err \<Rightarrow> Some (Inl err) | Inr d \<Rightarrow> answer_of c d)"
    by (auto simp: deliver_def split: sum.splits)
  with None run show thesis by (intro Requested [of r]) simp_all
next
  case (Some err)
  with assms show thesis by (intro Refused [of err]) (simp_all add: invoke_eq)
qed

lemma makeRequest_provisioned:
  assumes run: "makeRequest e q s w = (r, s', w')" and inv: "provisioned s"
  shows "provisioned s'"
  using run
proof (cases rule: makeRequest_cases)
  case (Hit d)
  with inv show ?thesis by simp
next
  case (NoToken d w1 err)
  with inv getAccessToken_Inl(1) [OF NoToken(3)] show ?thesis by simp
next
  case (Resolved d w1 token s2 w2 d')
  from getAccessToken_Inr(1) [OF Resolved(3)] getAccessToken_frame [OF Resolved(3)] Resolved(6)
  show ?thesis by (simp add: provisioned_def isConfigured_def)
next
  case (Rejected d w1 token s2 w2 status code)
  from getAccessToken_Inr(1) [OF Rejected(3)] getAccessToken_frame [OF Rejected(3)] Rejected(6)
  show ?thesis by (simp add: provisioned_def isConfigured_def on_rejected_def)
qed

lemma reachable_provisioned: "reachable s \<Longrightarrow> provisioned s"
proof (induction rule: reachable.induct)
  case (constructed env_id env_secret)
  show ?case by (simp add: provisioned_def constructor_def)
next
  case (called s c w r s' w')
  from called(2) show ?case
  proof (cases rule: invoke_cases)
    case (Refused err)
    with called show ?thesis by simp
  next
    case (Requested r)
    with called makeRequest_provisioned show ?thesis by blast
  qed
next
  case (cleared s)
  then show ?case by (auto simp: provisioned_def clearCache_def isConfigured_def)
qed

lemma makeRequest_unconfigured:
  assumes "\<not> isConfigured s" and "requestCache s = []"
  shows "makeRequest e q s w = (Inl credentials_error, s, w)"
  using assms by (simp add: makeRequest_def getCachedData_def getAccessToken_unconfigured)

lemma reachable_token_configured:
  "reachable s \<Longrightarrow> accessToken s = Some t \<Longrightarrow> isConfigured s"
  by (auto dest!: reachable_provisioned simp: provisioned_def)

lemma reachable_cache_configured:
  "reachable s \<Longrightarrow> map_of (requestCache s) k = Some ce \<Longrightarrow> isConfigured s"
  by (auto dest!: reachable_provisioned simp: provisioned_def)

lemma getAccessToken_cleared:
  assumes conf: "isConfigured s" and none: "accessToken s = None"
    and run: "getAccessToken s v = (x, s', v')"
  shows "\<exists>rs. sent v' = sent v @ TokenPost (clientId s) (clientSecret s) # rs"
proof -
  from none have "reusable_token s v = (None, v)" by (simp add: reusable_token_cases)
  from getAccessToken_exchange [OF conf this] run show ?thesis
    by (auto split: token_reply.splits)
qed

lemma makeRequest_sent_prefix:
  assumes run: "makeRequest e q s w = (r, s', w')"
  shows "\<exists>rs. sent w' = sent w @ rs"
  using run
proof (cases rule: makeRequest_cases)
  case (Hit d)
  then show ?thesis by (simp add: getCachedData_frame)
next
  case (NoToken d w1 err)
  with getAccessToken_Inl(2) [OF NoToken(3)] show ?thesis
    by (auto simp: getCachedData_frame)
next
  case (Resolved d w1 token s2 w2 d')
  with getAccessToken_Inr(2) [OF Resolved(3)] show ?thesis
    by (auto simp: getCachedData_frame)
next
  case (Rejected d w1 token s2 w2 status code)
  with getAccessToken_Inr(2) [OF Rejected(3)] show ?thesis
    by (auto simp: getCachedData_frame)
qed

lemma makeRequest_cleared_token:
  assumes conf: "isConfigured s" and none: "accessToken s = None"
    and run: "makeRequest e q s v = (r, s', v')"
  shows "sent v' = sent v \<or>
         (\<exists>rs. sent v' = sent v @ TokenPost (clientId s) (clientSecret s) # rs)"
  using run
proof (cases rule: makeRequest_cases)
  case (Hit d)
  then show ?thesis by (simp add: getCachedData_frame)
next
  case (NoToken d w1 err)
  with getAccessToken_cleared [OF conf none NoToken(3)] show ?thesis
    by (auto simp: getCachedData_frame)
next
  case (Resolved d w1 token s2 w2 d')
  with getAccessToken_cleared [OF conf none Resolved(3)] show ?thesis
    by (auto simp: getCachedData_frame)
next
  case (Rejected d w1 token s2 w2 status code)
  with getAccessToken_cleared [OF conf none Rejected(3)] show ?thesis
    by (auto simp: getCachedData_frame)
qed

lemma makeRequest_miss_sends:
  assumes run: "makeRequest e q s w = (r, s', w')"
    and miss: "\<not> truthy (fst (getCachedData (getCacheKey e q) s w))"
    and conf: "isConfigured s"
  shows "(\<exists>rs. rs \<noteq> [] \<and> sent w' = sent w @ rs) \<and>
         (r \<noteq> Inl token_exchange_error \<longrightarrow> data_posts w' = Suc (data_posts w))"
  using run
proof (cases rule: makeRequest_cases)
  case (Hit d)
  with miss show ?thesis by simp
next
  case (NoToken d w1 err)
  with getAccessToken_Inl(2) [OF NoToken(3)] conf show ?thesis
    by (auto simp: getCachedData_frame)
next
  case (Resolved d w1 token s2 w2 d')
  with getAccessToken_Inr(2) [OF Resolved(3)] getAccessToken_frame(7) [OF Resolved(3)]
  show ?thesis by (auto simp: getCachedData_frame)
next
  case (Rejected d w1 token s2 w2 status code)
  with getAccessToken_Inr(2) [OF Rejected(3)] getAccessToken_frame(7) [OF Rejected(3)]
  show ?thesis by (auto simp: getCachedData_frame)
qed

lemma getCachedData_absent:
  "map_of (requestCache s) k = None \<Longrightarrow> getCachedData k s w = (JNull, w)"
  by (simp add: getCachedData_def)

lemma kind_of_simps:
  "kind_of credentials_error = ConfigurationError"
  "kind_of token_exchange_error = AuthenticationError"
  "kind_of unauthorized_error = AuthenticationError"
  "kind_of rate_limit_error = RateLimitError"
  "kind_of timeout_error = TimeoutError"
  "kind_of (upstream_error endpoint) = UpstreamError"
  "kind_of (Error ''Search query cannot be empty'') = ValidationError"
  "kind_of (Error ''Invalid game ID'') = ValidationError"
  "kind_of (Error ''Game slug cannot be empty'') = ValidationError"
  "kind_of (Error ''Invalid genre ID'') = ValidationError"
  "kind_of (Error ''Invalid platform ID'') = ValidationError"
  by (simp_all add: kind_of_def credentials_error_def token_exchange_error_def
      unauthorized_error_def rate_limit_error_def timeout_error_def upstream_error_def)

lemma rejects_kind: "rejects c = Some e \<Longrightarrow> kind_of e = ValidationError"
  by (cases c) (auto simp: kind_of_simps split: if_splits)

lemma makeRequest_distinct_keys:
  assumes run: "makeRequest e q s w = (r, s', w')"
    and dist: "distinct (map fst (requestCache s))"
  shows "distinct (map fst (requestCache s'))"
  using run
proof (cases rule: makeRequest_cases)
  case (Hit d)
  with dist show ?thesis by simp
next
  case (NoToken d w1 err)
  with dist getAccessToken_Inl(1) [OF NoToken(3)] show ?thesis by simp
next
  case (Resolved d w1 token s2 w2 d')
  with dist show ?thesis by (simp add: distinct_update)
next
  case (Rejected d w1 token s2 w2 status code)
  with dist getAccessToken_frame(6) [OF Rejected(3)] show ?thesis
    by (simp add: on_rejected_def)
qed

text \<open>
  In every reachable state the association list has distinct keys, as a \<open>Map\<close> has, so
  its length is the size of the map.
\<close>

lemma reachable_distinct_keys: "reachable s \<Longrightarrow> distinct (map fst (requestCache s))"
proof (induction rule: reachable.induct)
  case (constructed env_id env_secret)
  show ?case by (simp add: constructor_def)
next
  case (called s c w r s' w')
  from called(2) show ?case
  proof (cases rule: invoke_cases)
    case (Refused err)
    with called show ?thesis by simp
  next
    case (Requested r)
    with called makeRequest_distinct_keys show ?thesis by blast
  qed
next
  case (cleared s)
  show ?case by (simp add: clearCache_def)
qed

text \<open>
  Observing a call from outside. When a call of \<open>makeRequest\<close> has raised the number of
  data requests, it missed the cache, obtained a token and posted once, and the reply to
  that post is \<open>api_host w (sent w')\<close>: the data request is the last request the call
  sends. Likewise, when \<open>getAccessToken\<close> has sent anything, it found no token to reuse
  and the reply to its token exchange is \<open>identity_provider w (sent w')\<close>.
\<close>

lemma makeRequest_observed_reply:
  assumes run: "makeRequest e q s w = (r, s', w')" and posted: "data_posts w' \<noteq> data_posts w"
  shows "\<exists>d w1 token s2 w2.
           getCachedData (getCacheKey e q) s w = (d, w1) \<and> \<not> truthy d \<and>
           getAccessToken s w1 = (Inr token, s2, w2) \<and>
           fst (post_data e q (clientId s2) token w2) = api_host w (sent w') \<and>
           data_posts w' = Suc (data_posts w)"
  using run
proof (cases rule: makeRequest_cases)
  case (Hit d)
  with posted show ?thesis by (simp add: getCachedData_frame)
next
  case (NoToken d w1 err)
  with posted show ?thesis by (simp add: getCachedData_frame getAccessToken_frame)
next
  case (Resolved d w1 token s2 w2 d')
  note fr = getAccessToken_frame [OF Resolved(3)] getCachedData_frame [OF Resolved(1)]
  from Resolved fr show ?thesis by (simp add: post_data_def)
next
  case (Rejected d w1 token s2 w2 status code)
  note fr = getAccessToken_frame [OF Rejected(3)] getCachedData_frame [OF Rejected(1)]
  from Rejected fr show ?thesis by (simp add: post_data_def)
qed

lemma getAccessToken_observed_reply:
  assumes run: "getAccessToken s w = (r, s', w')" and posted: "sent w' \<noteq> sent w"
  shows "\<exists>w1. reusable_token s w = (None, w1) \<and>
           fst (post_token (clientId s) (clientSecret s) w1) = identity_provider w (sent w')"
  using assms
  by (auto simp: getAccessToken_def reusable_token_cases post_token_def Date_now_def Let_def
      split: if_splits token_reply.splits)

text \<open>
  A request for one cache key leaves the entries of all other keys alone, and no request
  changes the credentials.
\<close>

lemma makeRequest_other_key:
  assumes run: "makeRequest e q s w = (r, s', w')" and other: "getCacheKey e q \<noteq> key"
  shows "map_of (requestCache s') key = map_of (requestCache s) key"
  using run
proof (cases rule: makeRequest_cases)
  case (Hit d)
  then show ?thesis by simp
next
  case (NoToken d w1 err)
  with getAccessToken_Inl(1) [OF NoToken(3)] show ?thesis by simp
next
  case (Resolved d w1 token s2 w2 d')
  with other show ?thesis by (simp add: update_conv')
next
  case (Rejected d w1 token s2 w2 status code)
  with getAccessToken_frame(6) [OF Rejected(3)] show ?thesis
    by (simp add: on_rejected_def)
qed

lemma makeRequest_credentials:
  assumes run: "makeRequest e q s w = (r, s', w')"
  shows "clientId s' = clientId s \<and> clientSecret s' = clientSecret s"
  using run
proof (cases rule: makeRequest_cases)
  case (Hit d)
  then show ?thesis by simp
next
  case (NoToken d w1 err)
  with getAccessToken_Inl(1) [OF NoToken(3)] show ?thesis by simp
next
  case (Resolved d w1 token s2 w2 d')
  with getAccessToken_frame(4,5) [OF Resolved(3)] show ?thesis by simp
next
  case (Rejected d w1 token s2 w2 status code)
  with getAccessToken_frame(4,5) [OF Rejected(3)] show ?thesis
    by (simp add: on_rejected_def)
qed

lemma after_other_calls_frame:
  assumes "after_other_calls key s s'"
  shows "map_of (requestCache s') key = map_of (requestCache s) key \<and>
         clientId s' = clientId s \<and> clientSecret s' = clientSecret s"
  using assms
proof (induction rule: after_other_calls.induct)
  case (no_call s)
  show ?case by simp
next
  case (other_call s s1 c w y s2 w2)
  from other_call(2) show ?case
  proof (cases rule: invoke_cases)
    case (Refused err)
    with other_call show ?thesis by simp
  next
    case (Requested r)
    with other_call makeRequest_other_key [OF Requested(2) other_call(3)]
      makeRequest_credentials [OF Requested(2)]
    show ?thesis by simp
  qed
qed

text \<open>
  A call that stores a payload reads the clock for the timestamp after its data request:
  the request was sent when \<open>n\<close> readings had been taken, and reading \<open>n\<close> is the
  timestamp.
\<close>

lemma makeRequest_stored:
  assumes run: "makeRequest e q s w = (r, s', w')"
    and posted: "data_posts w' \<noteq> data_posts w"
    and reply: "api_host w (sent w') = DataResolved d"
  shows "r = Inr d \<and> data_posts w' = Suc (data_posts w) \<and> isConfigured s' \<and>
         clock w' = clock w \<and>
         (\<exists>token. last (sent w') = DataPost e q (clientId s) token) \<and>
         (\<exists>n. ticks w' = Suc n \<and> last (sent_at w') = n \<and>
              map_of (requestCache s') (getCacheKey e q) =
                Some \<lparr>data = d, timestamp = clock w n\<rparr>)"
  using run
proof (cases rule: makeRequest_cases)
  case (Hit d0)
  with posted show ?thesis by (simp add: getCachedData_frame)
next
  case (NoToken d0 v err)
  with posted show ?thesis by (simp add: getCachedData_frame getAccessToken_frame)
next
  case (Rejected d0 v token s0 v0 status code)
  with reply show ?thesis by simp
next
  case (Resolved d0 v token s0 v0 d')
  note fr = getAccessToken_frame [OF Resolved(3)] getCachedData_frame [OF Resolved(1)]
  from Resolved reply have "d' = d" by simp
  with Resolved fr getAccessToken_Inr(1) [OF Resolved(3)]
  show ?thesis by (simp add: update_conv' isConfigured_def)
qed

text \<open>
  A lookup of a present key reads the clock once; a fresh and truthy payload is served
  with no request and no change of state.
\<close>

lemma makeRequest_served:
  assumes entry: "map_of (requestCache s) (getCacheKey e q) = Some ce"
    and fresh: "clock w (ticks w) - timestamp ce < CACHE_DURATION"
    and payload: "truthy (data ce)"
  shows "makeRequest e q s w = (Inr (data ce), s, w\<lparr>ticks := Suc (ticks w)\<rparr>)"
proof -
  from entry fresh
  have "getCachedData (getCacheKey e q) s w = (data ce, w\<lparr>ticks := Suc (ticks w)\<rparr>)"
    by (simp add: getCachedData_cases)
  from makeRequest_hit [OF this payload] show ?thesis .
qed

lemma makeRequest_not_served:
  assumes entry: "map_of (requestCache s) (getCacheKey e q) = Some ce"
    and no: "\<not> truthy (data ce) \<or> \<not> clock w (ticks w) - timestamp ce < CACHE_DURATION"
    and conf: "isConfigured s"
    and run: "makeRequest e q s w = (r, s', w')"
  shows "(\<exists>rs. rs \<noteq> [] \<and> sent w' = sent w @ rs) \<and>
         (r \<noteq> Inl token_exchange_error \<longrightarrow> data_posts w' = Suc (data_posts w))"
proof -
  from entry no have "\<not> truthy (fst (getCachedData (getCacheKey e q) s w))"
    by (auto simp: getCachedData_cases)
  from makeRequest_miss_sends [OF run this conf] show ?thesis .
qed

text \<open>When the three values are below \<open>2\<^sup>5\<^sup>3\<close> in magnitude, the expiry is computed exactly.\<close>

lemma expiry_exact:
  assumes "\<bar>sint life * 1000\<bar> < 2 ^ 53"
    and "\<bar>now + sint life * 1000\<bar> < 2 ^ 53"
    and "\<bar>now + sint life * 1000 - 60000\<bar> < 2 ^ 53"
  shows "js_sub (js_add now (js_mul (reported_lifetime life) 1000)) 60000 =
         now + sint life * 1000 - 60000"
proof -
  from assms(1) have "\<bar>sint life\<bar> < 2 ^ 53" by linarith
  with assms show ?thesis
    by (simp add: js_sub_def js_add_def js_mul_def reported_lifetime_exact nearest_double_exact)
qed

section \<open>Properties\<close>

text \<open>
  In the statements below a call is observed from outside, as described above:
  \<open>data_posts w' \<noteq> data_posts w\<close> says that the call sent a data request, and
  \<open>api_host w (sent w')\<close> is then the reply that request received.
\<close>

lemmas call_defs = run_defs searchGames_def getPopularGames_def getGameById_def
  getGameBySlug_def getGenres_def getPlatforms_def getGamesByGenre_def getGamesByPlatform_def
  makeCustomRequest_def whole_result_def single_result_def names_query_def
  isConfigured_def trim_def is_white_space_def falsy_number_def

subsection \<open>The cache key\<close>

text \<open>
  Claim C8. The cache key is the endpoint name, a colon and the exact query payload, so
  for a fixed endpoint two keys are equal exactly when the two queries are: the key is
  injective in the query and different queries to one endpoint never collide.
\<close>

theorem getCacheKey_injective_in_query:
  "getCacheKey endpoint q = endpoint @ '':'' @ q \<and>
   inj (getCacheKey endpoint) \<and>
   (getCacheKey endpoint q1 = getCacheKey endpoint q2 \<longleftrightarrow> q1 = q2)"
  by (simp add: getCacheKey_def inj_def)

theorem getCacheKey_injective_in_query_witness:
  "getCacheKey ''games'' ''fields name;'' \<noteq> getCacheKey ''games'' ''fields slug;''"
proof -
  have "''fields name;'' \<noteq> ''fields slug;''" by simp
  with getCacheKey_injective_in_query [of "''games''" "''fields name;''" "''fields name;''" "''fields slug;''"]
  show ?thesis by blast
qed

subsection \<open>The token life cycle\<close>

text \<open>
  Claim C1, as stated, fails in two ways. First, the source tests the held token for
  truthiness, so a held token that is the empty string is not reused although the clock
  is before the stored expiry: the identity provider answers a token exchange with the
  empty token and a lifetime of 3600 seconds at clock 1000; the token is stored with
  expiry 3541000, and the next call of \<open>getAccessToken\<close>, still at clock 1000, sends a
  second token exchange. Second, the expiry is computed in double arithmetic and is not
  the exact sum for a large lifetime: for a lifetime of \<open>2\<^sup>5\<^sup>3 - 1\<close> seconds at clock 1000
  it is 9007199254740931584, and the exact sum is 9007199254740932000.
\<close>

theorem getAccessToken_empty_token_counterexample:
  "(let s0 = constructor (Some ''id'') (Some ''secret'');
        w0 = scripted_world (\<lambda>n. 1000) (TokenResolved [] 3600) (DataResolved (JArr []));
        (r1, s1, w1) = getAccessToken s0 w0;
        (r2, s2, w2) = getAccessToken s1 w1;
        v0 = scripted_world (\<lambda>n. 1000) (TokenResolved ''tok'' 9007199254740991)
               (DataResolved (JArr []));
        (r3, s3, v3) = getAccessToken s0 v0
    in r1 = Inr [] \<and> accessToken s1 = Some [] \<and> tokenExpiry s1 = 3541000 \<and>
       clock w1 (ticks w1) < tokenExpiry s1 \<and>
       sent w1 = [TokenPost ''id'' ''secret''] \<and>
       sent w2 = [TokenPost ''id'' ''secret'', TokenPost ''id'' ''secret''] \<and>
       r3 = Inr ''tok'' \<and> tokenExpiry s3 = 9007199254740931584 \<and>
       tokenExpiry s3 \<noteq> 1000 + 9007199254740991 * 1000 - 60000)"
proof -
  have "excess_bits 9007199254740991000 = 10" and "excess_bits 9007199254740991976 = 10"
    and "excess_bits 9007199254740932000 = 10"
    by (simp_all add: excess_bits.simps)
  then have big: "nearest_double 9007199254740991000 = 9007199254740990976"
    "nearest_double 9007199254740991976 = 9007199254740992000"
    "nearest_double 9007199254740932000 = 9007199254740931584"
    by (simp_all add: nearest_double_def Let_def)
  show ?thesis by (simp add: run_defs Let_def big)
qed

text \<open>
  Claim C1, amended. In every reachable state \<open>getAccessToken\<close> reuses a held token that
  is not the empty string, with no network call and no change of state, whenever the
  clock it reads is strictly before the stored expiry. A held token that is the empty
  string, or one whose stored expiry the clock is not strictly before, is not reused: a
  token exchange is sent. When a token exchange is sent and succeeds, the returned token
  is stored and returned, and the expiry is set from the clock reading taken after the
  reply: to \<open>now + expires_in * 1000 - 60000\<close> as double arithmetic computes it, which is
  the exact sum whenever the product, the sum and the difference are below \<open>2\<^sup>5\<^sup>3\<close> in
  magnitude.
\<close>

theorem getAccessToken_reuse_and_refresh:
  assumes run: "getAccessToken s w = (r, s', w')"
  shows "(\<forall>t. reachable s \<and> accessToken s = Some t \<and> t \<noteq> [] \<and> clock w (ticks w) < tokenExpiry s
            \<longrightarrow> r = Inr t \<and> s' = s \<and> sent w' = sent w) \<and>
         (\<forall>t. reachable s \<and> accessToken s = Some t \<and>
              (t = [] \<or> \<not> clock w (ticks w) < tokenExpiry s)
            \<longrightarrow> sent w' = sent w @ [TokenPost (clientId s) (clientSecret s)]) \<and>
         (\<forall>tok life. sent w' \<noteq> sent w \<and> identity_provider w (sent w') = TokenResolved tok life
            \<longrightarrow> r = Inr tok \<and> accessToken s' = Some tok \<and>
                (\<exists>n. ticks w' = Suc n \<and> last (sent_at w') = n \<and>
                   tokenExpiry s' =
                     js_sub (js_add (clock w n) (js_mul (reported_lifetime life) 1000)) 60000 \<and>
                   (\<bar>sint life * 1000\<bar> < 2 ^ 53 \<and> \<bar>clock w n + sint life * 1000\<bar> < 2 ^ 53 \<and>
                    \<bar>clock w n + sint life * 1000 - 60000\<bar> < 2 ^ 53
                      \<longrightarrow> tokenExpiry s' = clock w n + sint life * 1000 - 60000)))"
proof (intro conjI allI impI)
  fix t
  assume h: "reachable s \<and> accessToken s = Some t \<and> t \<noteq> [] \<and> clock w (ticks w) < tokenExpiry s"
  then have conf: "isConfigured s" by (auto intro: reachable_token_configured)
  from h have "reusable_token s w = (Some t, w\<lparr>ticks := Suc (ticks w)\<rparr>)"
    by (simp add: reusable_token_cases)
  from getAccessToken_reuse [OF conf this] run
  show "r = Inr t" and "s' = s" and "sent w' = sent w" by auto
next
  fix t
  assume h: "reachable s \<and> accessToken s = Some t \<and>
    (t = [] \<or> \<not> clock w (ticks w) < tokenExpiry s)"
  then have conf: "isConfigured s" by (auto intro: reachable_token_configured)
  obtain w1 where re: "reusable_token s w = (None, w1)" and same: "sent w1 = sent w"
  proof (cases "t = []")
    case True
    with h that [of w] show thesis by (simp add: reusable_token_cases)
  next
    case False
    with h that [of "w\<lparr>ticks := Suc (ticks w)\<rparr>"] show thesis
      by (simp add: reusable_token_cases)
  qed
  from getAccessToken_exchange [OF conf re] run same
  show "sent w' = sent w @ [TokenPost (clientId s) (clientSecret s)]"
    by (auto split: token_reply.splits)
next
  fix tok life
  assume h: "sent w' \<noteq> sent w \<and> identity_provider w (sent w') = TokenResolved tok life"
  with run have main: "r = Inr tok \<and> accessToken s' = Some tok \<and>
      (\<exists>n. ticks w' = Suc n \<and> last (sent_at w') = n \<and>
         tokenExpiry s' =
           js_sub (js_add (clock w n) (js_mul (reported_lifetime life) 1000)) 60000)"
    by (auto simp: getAccessToken_def reusable_token_cases post_token_def Date_now_def Let_def
        split: if_splits token_reply.splits)
  then show "r = Inr tok" and "accessToken s' = Some tok" by simp_all
  from main obtain n where n: "ticks w' = Suc n" "last (sent_at w') = n"
    "tokenExpiry s' = js_sub (js_add (clock w n) (js_mul (reported_lifetime life) 1000)) 60000"
    by blast
  then show "\<exists>n. ticks w' = Suc n \<and> last (sent_at w') = n \<and>
      tokenExpiry s' =
        js_sub (js_add (clock w n) (js_mul (reported_lifetime life) 1000)) 60000 \<and>
      (\<bar>sint life * 1000\<bar> < 2 ^ 53 \<and> \<bar>clock w n + sint life * 1000\<bar> < 2 ^ 53 \<and>
       \<bar>clock w n + sint life * 1000 - 60000\<bar> < 2 ^ 53
         \<longrightarrow> tokenExpiry s' = clock w n + sint life * 1000 - 60000)"
    by (intro exI [of _ n]) (simp add: expiry_exact)
qed

text \<open>
  A run of the cases. A first request at clock 1000 exchanges the token (lifetime 3600
  seconds, so the expiry is 3541000); a token acquisition at clock 3540999 reuses it; one
  at clock 3541000 sends a new exchange, and the expiry is set from the reading taken
  after that exchange. In a second world the provider issues the empty token, which the
  next token acquisition does not reuse.
\<close>

theorem getAccessToken_reuse_and_refresh_witness:
  "(let s0 = constructor (Some ''id'') (Some ''secret'');
        w0 = scripted_world (\<lambda>n. if n = 0 then 1000 else if n = 1 then 3540999 else 3541000 + int n)
               (TokenResolved ''tok'' 3600) (DataRejected (Some 500) None);
        (y, s1, w1) = invoke GetGenres s0 w0;
        (r2, s2, w2) = getAccessToken s1 w1;
        (r3, s3, w3) = getAccessToken s2 w2;
        v0 = scripted_world (\<lambda>n. 1000) (TokenResolved [] 3600) (DataRejected (Some 500) None);
        (x, t1, v1) = invoke GetGenres s0 v0;
        (x2, t2, v2) = getAccessToken t1 v1
    in reachable s1 \<and> accessToken s1 = Some ''tok'' \<and> tokenExpiry s1 = 3541000 \<and>
       clock w1 (ticks w1) = 3540999 \<and> r2 = Inr ''tok'' \<and> s2 = s1 \<and> sent w2 = sent w1 \<and>
       clock w2 (ticks w2) = 3541002 \<and>
       sent w3 = sent w2 @ [TokenPost ''id'' ''secret''] \<and> r3 = Inr ''tok'' \<and>
       ticks w3 = 4 \<and> last (sent_at w3) = 3 \<and>
       tokenExpiry s3 = 3541003 + 3600 * 1000 - 60000 \<and>
       reachable t1 \<and> accessToken t1 = Some [] \<and> clock v1 (ticks v1) < tokenExpiry t1 \<and>
       sent v2 = sent v1 @ [TokenPost ''id'' ''secret''])"
proof -
  let ?s0 = "constructor (Some ''id'') (Some ''secret'')"
  let ?w0 = "scripted_world (\<lambda>n. if n = 0 then 1000 else if n = 1 then 3540999 else 3541000 + int n)
               (TokenResolved ''tok'' 3600) (DataRejected (Some 500) None)"
  let ?v0 = "scripted_world (\<lambda>n. 1000) (TokenResolved [] 3600) (DataRejected (Some 500) None)"
  obtain y s1 w1 where first: "invoke GetGenres ?s0 ?w0 = (y, s1, w1)"
    by (cases "invoke GetGenres ?s0 ?w0")
  obtain r2 s2 w2 where second: "getAccessToken s1 w1 = (r2, s2, w2)"
    by (cases "getAccessToken s1 w1")
  obtain r3 s3 w3 where third: "getAccessToken s2 w2 = (r3, s3, w3)"
    by (cases "getAccessToken s2 w2")
  obtain x t1 v1 where other: "invoke GetGenres ?s0 ?v0 = (x, t1, v1)"
    by (cases "invoke GetGenres ?s0 ?v0")
  obtain x2 t2 v2 where fourth: "getAccessToken t1 v1 = (x2, t2, v2)"
    by (cases "getAccessToken t1 v1")
  have reach: "reachable s1"
    by (rule reachable.called [OF reachable.constructed first])
  have reach': "reachable t1"
    by (rule reachable.called [OF reachable.constructed other])
  have s1: "accessToken s1 = Some ''tok''" "tokenExpiry s1 = 3541000" "clientId s1 = ''id''"
      "clientSecret s1 = ''secret''"
    and w1: "clock w1 = clock ?w0" "ticks w1 = 1" "identity_provider w1 = identity_provider ?w0"
    using first by (auto simp: call_defs)
  have t1: "accessToken t1 = Some []" "tokenExpiry t1 = 3541000" "clientId t1 = ''id''"
      "clientSecret t1 = ''secret''" "clock v1 (ticks v1) = 1000"
    using other by (auto simp: call_defs)
  from getAccessToken_reuse_and_refresh [OF second] reach s1 w1
  have two: "r2 = Inr ''tok'' \<and> s2 = s1 \<and> sent w2 = sent w1"
    by (simp add: scripted_world_def)
  from getAccessToken_frame [OF second] w1
  have w2: "clock w2 = clock ?w0" "identity_provider w2 = identity_provider ?w0" by simp_all
  from second s1 w1 have t2: "ticks w2 = 2"
    by (auto simp: getAccessToken_def reusable_token_cases scripted_world_def)
  from getAccessToken_reuse_and_refresh [OF third] reach s1 two w2 t2
  have three: "sent w3 = sent w2 @ [TokenPost ''id'' ''secret'']"
    by (simp add: scripted_world_def)
  note exchanged = getAccessToken_reuse_and_refresh [OF third, THEN conjunct2, THEN conjunct2,
      rule_format, of "''tok''" 3600]
  from three w2 have "sent w3 \<noteq> sent w2 \<and>
      identity_provider w2 (sent w3) = TokenResolved ''tok'' 3600"
    by (simp add: scripted_world_def)
  from exchanged [OF this] obtain n where r3: "r3 = Inr ''tok''"
    and n: "ticks w3 = Suc n" "last (sent_at w3) = n"
    and exact: "\<bar>sint (3600 :: 64 word) * 1000\<bar> < 2 ^ 53 \<and>
        \<bar>clock w2 n + sint (3600 :: 64 word) * 1000\<bar> < 2 ^ 53 \<and>
        \<bar>clock w2 n + sint (3600 :: 64 word) * 1000 - 60000\<bar> < 2 ^ 53
          \<longrightarrow> tokenExpiry s3 = clock w2 n + sint (3600 :: 64 word) * 1000 - 60000"
    by blast
  from third two s1 w2 t2 have "ticks w3 = 4"
    by (auto simp: getAccessToken_def reusable_token_cases post_token_def Date_now_def Let_def
        scripted_world_def split: if_splits token_reply.splits)
  with n have "n = 3" by simp
  with r3 n exact w2 have four: "r3 = Inr ''tok'' \<and> ticks w3 = 4 \<and> last (sent_at w3) = 3 \<and>
      tokenExpiry s3 = 3541003 + 3600 * 1000 - 60000"
    by (simp add: scripted_world_def)
  from getAccessToken_reuse_and_refresh [OF fourth] reach' t1
  have five: "sent v2 = sent v1 @ [TokenPost ''id'' ''secret'']"
    by simp
  from first second third other fourth reach reach' s1 w1 t1 two t2 w2 three four five
  show ?thesis
    by (simp add: Let_def scripted_world_def)
qed

subsection \<open>Failed data requests\<close>

text \<open>
  Claim C3. When the data request of a call is answered with status 401, the call clears
  the held token and its expiry and fails with the authentication error; it has sent
  exactly one data request, so the failing call is not retried. Afterwards, in any world,
  the next token acquisition starts with a fresh token exchange, and so does the next
  request unless it is answered from the cache without any network call: the cleared
  token is never reused.
\<close>

theorem unauthorized_clears_token:
  assumes run: "makeRequest e q s w = (r, s', w')"
      and posted: "data_posts w' \<noteq> data_posts w"
      and reply: "api_host w (sent w') = DataRejected (Some 401) code"
  shows "r = Inl unauthorized_error \<and> kind_of unauthorized_error = AuthenticationError \<and>
         accessToken s' = None \<and> tokenExpiry s' = 0 \<and>
         data_posts w' = Suc (data_posts w) \<and>
         (\<forall>v x s'' v'. getAccessToken s' v = (x, s'', v') \<longrightarrow>
            (\<exists>rs. sent v' = sent v @ TokenPost (clientId s) (clientSecret s) # rs)) \<and>
         (\<forall>e2 q2 v r2 s'' v'. makeRequest e2 q2 s' v = (r2, s'', v') \<longrightarrow>
            sent v' = sent v \<or>
            (\<exists>rs. sent v' = sent v @ TokenPost (clientId s) (clientSecret s) # rs))"
  using run
proof (cases rule: makeRequest_cases)
  case (Hit d)
  with posted show ?thesis by (simp add: getCachedData_frame)
next
  case (NoToken d w1 err)
  with posted show ?thesis by (simp add: getCachedData_frame getAccessToken_frame)
next
  case (Resolved d w1 token s2 w2 d')
  with reply show ?thesis by simp
next
  case (Rejected d w1 token s2 w2 status code')
  with reply have st: "status = Some 401" by simp
  note fr = getAccessToken_frame [OF Rejected(3)]
  from st Rejected have s': "s' = s2\<lparr>accessToken := None, tokenExpiry := 0\<rparr>"
    by (simp add: on_rejected_def)
  with fr getAccessToken_Inr(1) [OF Rejected(3)]
  have conf: "isConfigured s'" and none: "accessToken s' = None"
    and ids: "clientId s' = clientId s" "clientSecret s' = clientSecret s"
    by (simp_all add: isConfigured_def)
  have "r = Inl unauthorized_error" and "tokenExpiry s' = 0"
    and "data_posts w' = Suc (data_posts w)"
    using st Rejected s' fr by (simp_all add: on_rejected_def getCachedData_frame)
  moreover have "\<exists>rs. sent v' = sent v @ TokenPost (clientId s) (clientSecret s) # rs"
    if "getAccessToken s' v = (x, s'', v')" for v x s'' v'
    using getAccessToken_cleared [OF conf none that] ids by simp
  moreover have "sent v' = sent v \<or>
      (\<exists>rs. sent v' = sent v @ TokenPost (clientId s) (clientSecret s) # rs)"
    if "makeRequest e2 q2 s' v = (r2, s'', v')" for e2 q2 v r2 s'' v'
    using makeRequest_cleared_token [OF conf none that] ids by simp
  ultimately show ?thesis using none kind_of_simps(3) by blast
qed

text \<open>
  A run: a service holding the token \<open>''old''\<close>, valid until 9000000, sends a request at
  clock 1000 that is answered 401; the same request made again exchanges the token first.
\<close>

theorem unauthorized_clears_token_witness:
  "(let s = \<lparr>clientId = ''id'', clientSecret = ''secret'', accessToken = Some ''old'',
             tokenExpiry = 9000000, requestCache = []\<rparr>;
        w = scripted_world (\<lambda>n. 1000) (TokenResolved ''new'' 3600) (DataRejected (Some 401) None);
        (r, s', w') = makeRequest ''games'' ''fields name;'' s w;
        (r2, s'', w'') = makeRequest ''games'' ''fields name;'' s' w'
    in data_posts w' \<noteq> data_posts w \<and> api_host w (sent w') = DataRejected (Some 401) None \<and>
       sent w' = [DataPost ''games'' ''fields name;'' ''id'' ''old''] \<and>
       r = Inl unauthorized_error \<and> accessToken s' = None \<and> tokenExpiry s' = 0 \<and>
       (\<exists>rs. sent w'' = sent w' @ TokenPost ''id'' ''secret'' # rs))"
proof -
  let ?s = "\<lparr>clientId = ''id'', clientSecret = ''secret'', accessToken = Some ''old'',
             tokenExpiry = 9000000, requestCache = []\<rparr>"
  let ?w = "scripted_world (\<lambda>n. 1000) (TokenResolved ''new'' 3600) (DataRejected (Some 401) None)"
  obtain r s' w' where run: "makeRequest ''games'' ''fields name;'' ?s ?w = (r, s', w')"
    by (cases "makeRequest ''games'' ''fields name;'' ?s ?w")
  obtain r2 s'' w'' where again: "makeRequest ''games'' ''fields name;'' s' w' = (r2, s'', w'')"
    by (cases "makeRequest ''games'' ''fields name;'' s' w'")
  have posted: "data_posts w' \<noteq> data_posts ?w"
    and reply: "api_host ?w (sent w') = DataRejected (Some 401) None"
    and log: "sent w' = [DataPost ''games'' ''fields name;'' ''id'' ''old'']"
    and cache: "requestCache s' = []"
    and conf: "isConfigured s'"
    using run by (auto simp: run_defs isConfigured_def)
  note main = unauthorized_clears_token [OF run posted reply]
  from cache have "\<not> truthy (fst (getCachedData (getCacheKey ''games'' ''fields name;'') s' w'))"
    by (simp add: getCachedData_absent)
  from makeRequest_miss_sends [OF again this conf] have "sent w'' \<noteq> sent w'"
    by auto
  with main again have "\<exists>rs. sent w'' = sent w' @ TokenPost ''id'' ''secret'' # rs"
    by (simp add: scripted_world_def) blast
  with main posted reply log run again show ?thesis
    by (simp add: Let_def)
qed

text \<open>
  Claim C5. When the data request of a call is answered with status 429, the call fails
  with the rate-limit error and leaves the cache as it was: a response is stored only when
  the request succeeds.
\<close>

theorem rate_limit_leaves_cache_unchanged:
  assumes run: "makeRequest e q s w = (r, s', w')"
      and posted: "data_posts w' \<noteq> data_posts w"
      and reply: "api_host w (sent w') = DataRejected (Some 429) code"
  shows "r = Inl rate_limit_error \<and> kind_of rate_limit_error = RateLimitError \<and>
         requestCache s' = requestCache s \<and>
         map_of (requestCache s') (getCacheKey e q) = map_of (requestCache s) (getCacheKey e q) \<and>
         data_posts w' = Suc (data_posts w) \<and>
         (\<exists>token. last (sent w') = DataPost e q (clientId s) token)"
  using run
proof (cases rule: makeRequest_cases)
  case (Hit d)
  with posted show ?thesis by (simp add: getCachedData_frame)
next
  case (NoToken d w1 err)
  with posted show ?thesis by (simp add: getCachedData_frame getAccessToken_frame)
next
  case (Resolved d w1 token s2 w2 d')
  with reply show ?thesis by simp
next
  case (Rejected d w1 token s2 w2 status code')
  with reply have "status = Some 429" by simp
  with Rejected show ?thesis
    by (simp add: on_rejected_def getCachedData_frame getAccessToken_frame kind_of_simps)
qed

theorem rate_limit_leaves_cache_unchanged_witness:
  "(let s = constructor (Some ''id'') (Some ''secret'');
        w = scripted_world (\<lambda>n. 1000) (TokenResolved ''tok'' 3600) (DataRejected (Some 429) None);
        (r, s', w') = makeRequest ''genres'' ''fields name;'' s w
    in data_posts w' \<noteq> data_posts w \<and> api_host w (sent w') = DataRejected (Some 429) None \<and>
       r = Inl rate_limit_error \<and> requestCache s' = [] \<and>
       map_of (requestCache s') (getCacheKey ''genres'' ''fields name;'') = None)"
proof -
  let ?s = "constructor (Some ''id'') (Some ''secret'')"
  let ?w = "scripted_world (\<lambda>n. 1000) (TokenResolved ''tok'' 3600) (DataRejected (Some 429) None)"
  obtain r s' w' where run: "makeRequest ''genres'' ''fields name;'' ?s ?w = (r, s', w')"
    by (cases "makeRequest ''genres'' ''fields name;'' ?s ?w")
  have posted: "data_posts w' \<noteq> data_posts ?w"
    and reply: "api_host ?w (sent w') = DataRejected (Some 429) None"
    and empty: "requestCache ?s = []"
    using run by (auto simp: run_defs)
  from rate_limit_leaves_cache_unchanged [OF run posted reply] posted reply empty run
  show ?thesis by (simp add: Let_def)
qed

subsection \<open>The unconfigured client\<close>

text \<open>
  Claim C4, as stated, fails: each method checks its own arguments before it asks for a
  token, so on a client without credentials a call with a bad argument fails with the
  method's validation error, not with the configuration error.
\<close>

theorem unconfigured_validation_first_counterexample:
  "(let s = constructor None None;
        w = scripted_world (\<lambda>n. 0) TokenRejected (DataRejected None None)
    in \<not> isConfigured s \<and>
       invoke (SearchGames '''' None) s w =
         (Some (Inl (Error ''Search query cannot be empty'')), s, w) \<and>
       invoke (GetGameById (Finite 0)) s w = (Some (Inl (Error ''Invalid game ID'')), s, w) \<and>
       Error ''Search query cannot be empty'' \<noteq> credentials_error \<and>
       Error ''Invalid game ID'' \<noteq> credentials_error)"
  by (simp add: Let_def isConfigured_def constructor_def or_empty_def searchGames_def
      getGameById_def whole_result_def trim_def credentials_error_def)

text \<open>
  Claim C4, amended. When either credential is empty, \<open>isConfigured\<close> is false and every
  call of a public query method, in every reachable state, fails without any network
  I/O and leaves the service and the world untouched: with the configuration error
  when its arguments pass the method's own check, and with that check's validation
  error otherwise.
\<close>

theorem unconfigured_fails_without_io:
  assumes reach: "reachable s" and empty: "clientId s = [] \<or> clientSecret s = []"
  shows "isConfigured s = False \<and>
         invoke c s w =
           (Some (Inl (case rejects c of None \<Rightarrow> credentials_error | Some err \<Rightarrow> err)), s, w) \<and>
         kind_of (case rejects c of None \<Rightarrow> credentials_error | Some err \<Rightarrow> err) =
           (if rejects c = None then ConfigurationError else ValidationError)"
proof -
  from empty have unconf: "\<not> isConfigured s" by (auto simp: isConfigured_def)
  with reachable_provisioned [OF reach] have "requestCache s = []"
    by (simp add: provisioned_def)
  with unconf show ?thesis
    by (auto simp: invoke_eq makeRequest_unconfigured deliver_def kind_of_simps rejects_kind
        split: option.splits)
qed

theorem unconfigured_fails_without_io_witness:
  "(let s = constructor None (Some ''secret'');
        w = scripted_world (\<lambda>n. 0) (TokenResolved ''tok'' 3600) (DataResolved (JArr []))
    in reachable s \<and> (clientId s = [] \<or> clientSecret s = []) \<and> isConfigured s = False \<and>
       invoke GetGenres s w = (Some (Inl credentials_error), s, w) \<and>
       invoke (GetGameById (Finite 7)) s w = (Some (Inl credentials_error), s, w) \<and>
       invoke (GetGameById (Finite 0)) s w = (Some (Inl (Error ''Invalid game ID'')), s, w))"
proof -
  let ?s = "constructor None (Some ''secret'')"
  let ?w = "scripted_world (\<lambda>n. 0) (TokenResolved ''tok'' 3600) (DataResolved (JArr []))"
  have reach: "reachable ?s" by (rule reachable.constructed)
  have empty: "clientId ?s = [] \<or> clientSecret ?s = []"
    by (simp add: constructor_def or_empty_def)
  from unconfigured_fails_without_io [OF reach empty, of GetGenres ?w]
    unconfigured_fails_without_io [OF reach empty, of "GetGameById (Finite 7)" ?w]
    unconfigured_fails_without_io [OF reach empty, of "GetGameById (Finite 0)" ?w] reach empty
  show ?thesis by (simp add: Let_def falsy_number_def)
qed

subsection \<open>The request cache\<close>

text \<open>
  Claim C9. \<open>clearCache\<close> removes every cache entry at once: \<open>getCacheStats\<close> right
  afterwards reports size 0 and no keys. On a configured client every query made after
  the clear goes to the network, whatever was cached before: the call sends at least one
  request, and it sends the data request unless the token exchange it needed failed.
\<close>

theorem clearCache_forces_refetch:
  "getCacheStats (clearCache s) = \<lparr>size_of = 0, keys_of = []\<rparr> \<and>
   requestCache (clearCache s) = [] \<and>
   (\<forall>y s' w'. isConfigured s \<and> rejects c = None \<and> invoke c (clearCache s) w = (y, s', w') \<longrightarrow>
      (\<exists>rs. rs \<noteq> [] \<and> sent w' = sent w @ rs) \<and>
      (y \<noteq> Some (Inl token_exchange_error) \<longrightarrow> data_posts w' = Suc (data_posts w)))"
proof (intro conjI allI impI)
  show "getCacheStats (clearCache s) = \<lparr>size_of = 0, keys_of = []\<rparr>"
    by (simp add: getCacheStats_def clearCache_def)
  show "requestCache (clearCache s) = []"
    by (simp add: clearCache_def)
next
  fix y s' w'
  assume h: "isConfigured s \<and> rejects c = None \<and> invoke c (clearCache s) w = (y, s', w')"
  then have conf: "isConfigured (clearCache s)"
    by (simp add: isConfigured_def clearCache_def)
  have miss: "\<not> truthy (fst (getCachedData (getCacheKey (endpoint_of c) (query_of c)) (clearCache s) w))"
    by (simp add: getCachedData_def clearCache_def)
  from h have "invoke c (clearCache s) w = (y, s', w')" by simp
  then have "(\<exists>rs. rs \<noteq> [] \<and> sent w' = sent w @ rs) \<and>
      (y \<noteq> Some (Inl token_exchange_error) \<longrightarrow> data_posts w' = Suc (data_posts w))"
  proof (cases rule: invoke_cases)
    case (Refused err)
    with h show ?thesis by simp
  next
    case (Requested r)
    from makeRequest_miss_sends [OF Requested(2) miss conf] Requested(3)
    show ?thesis by (cases r) auto
  qed
  then show "\<exists>rs. rs \<noteq> [] \<and> sent w' = sent w @ rs"
    and "y \<noteq> Some (Inl token_exchange_error) \<Longrightarrow> data_posts w' = Suc (data_posts w)"
    by simp_all
qed

text \<open>
  A run: the genre listing is fetched and cached (one entry); after \<open>clearCache\<close> the
  statistics are empty and the same call, one millisecond later, sends a second data
  request.
\<close>

theorem clearCache_forces_refetch_witness:
  "(let s0 = constructor (Some ''id'') (Some ''secret'');
        w0 = scripted_world (\<lambda>n. 1000 + int n) (TokenResolved ''tok'' 3600)
               (DataResolved (JArr [JObj [(''id'', JNum 4), (''name'', JStr ''Puzzle'')]]));
        (y1, s1, w1) = invoke GetGenres s0 w0;
        (y2, s2, w2) = invoke GetGenres (clearCache s1) w1
    in isConfigured s1 \<and> rejects GetGenres = None \<and>
       size_of (getCacheStats s1) = 1 \<and> data_posts w1 = 1 \<and>
       getCacheStats (clearCache s1) = \<lparr>size_of = 0, keys_of = []\<rparr> \<and>
       y2 \<noteq> Some (Inl token_exchange_error) \<and> data_posts w2 = 2)"
proof -
  let ?s0 = "constructor (Some ''id'') (Some ''secret'')"
  let ?w0 = "scripted_world (\<lambda>n. 1000 + int n) (TokenResolved ''tok'' 3600)
               (DataResolved (JArr [JObj [(''id'', JNum 4), (''name'', JStr ''Puzzle'')]]))"
  obtain y1 s1 w1 where first: "invoke GetGenres ?s0 ?w0 = (y1, s1, w1)"
    by (cases "invoke GetGenres ?s0 ?w0")
  obtain y2 s2 w2 where second: "invoke GetGenres (clearCache s1) w1 = (y2, s2, w2)"
    by (cases "invoke GetGenres (clearCache s1) w1")
  have conf: "isConfigured s1" and valid: "rejects GetGenres = None"
    and one: "size_of (getCacheStats s1) = 1" "data_posts w1 = 1"
    using first by (auto simp: call_defs getCacheStats_def)
  have ok: "y2 \<noteq> Some (Inl token_exchange_error)"
    using first second
    by (auto simp: call_defs clearCache_def token_exchange_error_def)
  from clearCache_forces_refetch [of s1 GetGenres w1] conf valid second ok one
  have "getCacheStats (clearCache s1) = \<lparr>size_of = 0, keys_of = []\<rparr> \<and> data_posts w2 = 2"
    by simp
  with first second conf valid one ok show ?thesis
    by (simp add: Let_def)
qed

text \<open>
  Claim C10. The cache-hit path tests the stored payload for truthiness, not the entry
  for existence. In every reachable state, a request whose key has a cache entry with a
  falsy payload is treated as a miss at any time, also within the validity window: it
  sends at least one request, and the data request unless the token exchange it needed
  failed. An entry with a truthy payload is served from the cache, with no request,
  throughout the window; every array, the empty one included, is truthy.
\<close>

theorem falsy_payload_is_never_served:
  assumes reach: "reachable s"
    and entry: "map_of (requestCache s) (getCacheKey e q) = Some ce"
    and run: "makeRequest e q s w = (r, s', w')"
  shows "(\<not> truthy (data ce) \<longrightarrow>
            (\<exists>rs. rs \<noteq> [] \<and> sent w' = sent w @ rs) \<and>
            (r \<noteq> Inl token_exchange_error \<longrightarrow> data_posts w' = Suc (data_posts w))) \<and>
         (truthy (data ce) \<and> clock w (ticks w) - timestamp ce < CACHE_DURATION \<longrightarrow>
            r = Inr (data ce) \<and> s' = s \<and> sent w' = sent w) \<and>
         truthy (JArr xs) \<and> truthy (JArr []) \<and> \<not> truthy JNull"
proof (intro conjI impI)
  assume falsy: "\<not> truthy (data ce)"
  from entry falsy
  have miss: "\<not> truthy (fst (getCachedData (getCacheKey e q) s w))"
    by (simp add: getCachedData_cases)
  from reachable_cache_configured [OF reach entry] have conf: "isConfigured s" .
  from makeRequest_miss_sends [OF run miss conf]
  show "\<exists>rs. rs \<noteq> [] \<and> sent w' = sent w @ rs"
    and "r \<noteq> Inl token_exchange_error \<Longrightarrow> data_posts w' = Suc (data_posts w)"
    by simp_all
next
  assume h: "truthy (data ce) \<and> clock w (ticks w) - timestamp ce < CACHE_DURATION"
  with entry
  have "getCachedData (getCacheKey e q) s w = (data ce, w\<lparr>ticks := Suc (ticks w)\<rparr>)"
    by (simp add: getCachedData_cases)
  from makeRequest_hit [OF this] h run
  show "r = Inr (data ce)" and "s' = s" and "sent w' = sent w" by auto
qed simp_all

text \<open>
  A run: the data endpoint answers \<open>null\<close>, which is stored at clock 1000; the same
  request one millisecond later is not served from the cache but sent again.
\<close>

theorem falsy_payload_is_never_served_witness:
  "(let s0 = constructor (Some ''id'') (Some ''secret'');
        w0 = scripted_world (\<lambda>n. 1000 + int n) (TokenResolved ''tok'' 3600) (DataResolved JNull);
        (y1, s1, w1) = invoke (MakeCustomRequest ''games'' ''fields name;'') s0 w0;
        (r2, s2, w2) = makeRequest ''games'' ''fields name;'' s1 w1
    in reachable s1 \<and>
       map_of (requestCache s1) (getCacheKey ''games'' ''fields name;'') =
         Some \<lparr>data = JNull, timestamp = 1001\<rparr> \<and>
       clock w1 (ticks w1) - 1001 < CACHE_DURATION \<and>
       data_posts w1 = 1 \<and> r2 = Inr JNull \<and> data_posts w2 = 2)"
proof -
  let ?s0 = "constructor (Some ''id'') (Some ''secret'')"
  let ?w0 = "scripted_world (\<lambda>n. 1000 + int n) (TokenResolved ''tok'' 3600) (DataResolved JNull)"
  obtain y1 s1 w1 where first: "invoke (MakeCustomRequest ''games'' ''fields name;'') ?s0 ?w0 = (y1, s1, w1)"
    by (cases "invoke (MakeCustomRequest ''games'' ''fields name;'') ?s0 ?w0")
  obtain r2 s2 w2 where second: "makeRequest ''games'' ''fields name;'' s1 w1 = (r2, s2, w2)"
    by (cases "makeRequest ''games'' ''fields name;'' s1 w1")
  have reach: "reachable s1"
    by (rule reachable.called [OF reachable.constructed first])
  have entry: "map_of (requestCache s1) (getCacheKey ''games'' ''fields name;'') =
         Some \<lparr>data = JNull, timestamp = 1001\<rparr>"
    and fresh: "clock w1 (ticks w1) - 1001 < CACHE_DURATION"
    and one: "data_posts w1 = 1"
    using first by (auto simp: call_defs)
  have r2: "r2 = Inr JNull"
    using first second by (auto simp: call_defs)
  from falsy_payload_is_never_served [OF reach entry second] r2 one
  have "data_posts w2 = 2" by simp
  with first second reach entry fresh one r2 show ?thesis
    by (simp add: Let_def)
qed

text \<open>
  Claim C2, as stated, fails when the payload is falsy: the data endpoint answers \<open>null\<close>
  to the genre listing, the payload is stored at clock 1000, and the same call at the same
  clock reading, well within five minutes, sends a second data request.
\<close>

theorem repeated_call_falsy_payload_counterexample:
  "(let s0 = constructor (Some ''id'') (Some ''secret'');
        w0 = scripted_world (\<lambda>n. 1000) (TokenResolved ''tok'' 3600) (DataResolved JNull);
        (y1, s1, w1) = invoke GetGenres s0 w0;
        (y2, s2, w2) = invoke GetGenres s1 w1
    in rejects GetGenres = None \<and> y1 = Some (Inr JNull) \<and>
       map_of (requestCache s1) (getCacheKey ''genres'' names_query) =
         Some \<lparr>data = JNull, timestamp = 1000\<rparr> \<and>
       clock w1 (ticks w1) - 1000 < CACHE_DURATION \<and>
       data_posts w1 = 1 \<and> data_posts w2 = 2)"
  by (simp add: call_defs Let_def)

text \<open>
  Claim C2, amended. Take any public query method with arguments that pass its check and
  a first call that sends a data request and gets the payload \<open>d\<close>. The first call sends
  exactly one data request, returns the payload (for the by-id and by-slug methods, what
  they make of it) and stores it under its cache key with the clock reading taken after
  the reply. After any number of calls for other cache keys the entry is still there, and
  the same call made again, in any world, is served from the cache exactly when \<open>d\<close> is
  truthy (as every JSON array and object is) and the clock it reads is less than 5
  minutes after the timestamp: it then returns the same answer, changes nothing and
  sends nothing, so the two calls have sent one data request between them. When \<open>d\<close> is
  falsy, or the clock it reads is 5 minutes or more after the timestamp, the second call
  sends at least one new request, and a new data request unless the token exchange it
  needed failed.
\<close>

theorem repeated_call_served_from_cache:
  assumes valid: "rejects c = None"
    and first: "invoke c s w = (y1, s1, w1)"
    and posted: "data_posts w1 \<noteq> data_posts w"
    and reply: "api_host w (sent w1) = DataResolved d"
    and between: "after_other_calls (getCacheKey (endpoint_of c) (query_of c)) s1 s2"
    and second: "invoke c s2 v = (y2, s2', v')"
  shows "data_posts w1 = Suc (data_posts w) \<and> y1 = answer_of c d \<and>
         (\<exists>n. ticks w1 = Suc n \<and> last (sent_at w1) = n \<and>
            map_of (requestCache s1) (getCacheKey (endpoint_of c) (query_of c)) =
              Some \<lparr>data = d, timestamp = clock w n\<rparr> \<and>
            map_of (requestCache s2) (getCacheKey (endpoint_of c) (query_of c)) =
              Some \<lparr>data = d, timestamp = clock w n\<rparr> \<and>
            (truthy d \<and> clock v (ticks v) - clock w n < 5 * 60 * 1000 \<longrightarrow>
               y2 = y1 \<and> s2' = s2 \<and> sent v' = sent v \<and> data_posts v' = data_posts v) \<and>
            (\<not> truthy d \<or> \<not> clock v (ticks v) - clock w n < 5 * 60 * 1000 \<longrightarrow>
               (\<exists>rs. rs \<noteq> [] \<and> sent v' = sent v @ rs) \<and>
               (y2 \<noteq> Some (Inl token_exchange_error) \<longrightarrow> data_posts v' = Suc (data_posts v))))"
proof -
  let ?key = "getCacheKey (endpoint_of c) (query_of c)"
  from first valid obtain r1 where run1: "makeRequest (endpoint_of c) (query_of c) s w = (r1, s1, w1)"
    and y1: "y1 = (case r1 of Inl err \<Rightarrow> Some (Inl err) | Inr d \<Rightarrow> answer_of c d)"
    by (cases rule: invoke_cases) simp_all
  from second valid obtain r2 where run2: "makeRequest (endpoint_of c) (query_of c) s2 v = (r2, s2', v')"
    and y2: "y2 = (case r2 of Inl err \<Rightarrow> Some (Inl err) | Inr d \<Rightarrow> answer_of c d)"
    by (cases rule: invoke_cases) simp_all
  from makeRequest_stored [OF run1 posted reply] obtain n
    where r1: "r1 = Inr d" and one: "data_posts w1 = Suc (data_posts w)"
      and n: "ticks w1 = Suc n" "last (sent_at w1) = n"
      and stored: "map_of (requestCache s1) ?key = Some \<lparr>data = d, timestamp = clock w n\<rparr>"
      and conf1: "isConfigured s1"
    by blast
  from after_other_calls_frame [OF between] stored conf1
  have kept: "map_of (requestCache s2) ?key = Some \<lparr>data = d, timestamp = clock w n\<rparr>"
    and conf: "isConfigured s2"
    by (simp_all add: isConfigured_def)
  have hit: "y2 = y1 \<and> s2' = s2 \<and> sent v' = sent v \<and> data_posts v' = data_posts v"
    if fresh: "truthy d \<and> clock v (ticks v) - clock w n < 5 * 60 * 1000"
  proof -
    from makeRequest_served [OF kept] fresh run2
    have "r2 = Inr d" "s2' = s2" "v' = v\<lparr>ticks := Suc (ticks v)\<rparr>"
      by (simp_all add: CACHE_DURATION_def)
    with y1 y2 r1 show ?thesis by (simp add: data_posts_def)
  qed
  have miss: "(\<exists>rs. rs \<noteq> [] \<and> sent v' = sent v @ rs) \<and>
      (y2 \<noteq> Some (Inl token_exchange_error) \<longrightarrow> data_posts v' = Suc (data_posts v))"
    if no: "\<not> truthy d \<or> \<not> clock v (ticks v) - clock w n < 5 * 60 * 1000"
  proof -
    from no have "\<not> truthy (data \<lparr>data = d, timestamp = clock w n\<rparr>) \<or>
        \<not> clock v (ticks v) - timestamp \<lparr>data = d, timestamp = clock w n\<rparr> < CACHE_DURATION"
      by (simp add: CACHE_DURATION_def)
    from makeRequest_not_served [OF kept this conf run2] y2 show ?thesis
      by (cases r2) auto
  qed
  from r1 y1 have "y1 = answer_of c d" by simp
  with one n stored kept hit miss show ?thesis by blast
qed

text \<open>
  A run in one world, the clock reading 1000 through the first two calls and 300999 from
  then on: the genre listing is fetched and stored at clock 1000, then the
  platform listing is fetched, then the genre listing is asked for again at clock 300999
  and served from the cache: the three calls have sent two data requests. In a second
  world the last call reads the clock 301000, exactly five minutes after the timestamp,
  and is sent again.
\<close>

theorem repeated_call_served_from_cache_witness:
  "(let s0 = constructor (Some ''id'') (Some ''secret'');
        genres = JArr [JObj [(''id'', JNum 4), (''name'', JStr ''Puzzle'')]];
        early = scripted_world (\<lambda>n. if n < 4 then 1000 else 300999)
                  (TokenResolved ''tok'' 3600) (DataResolved genres);
        late = scripted_world (\<lambda>n. if n < 4 then 1000 else 301000)
                  (TokenResolved ''tok'' 3600) (DataResolved genres);
        (y1, s1, w1) = invoke GetGenres s0 early;
        (y', s2, w2) = invoke GetPlatforms s1 w1;
        (y2, s3, w3) = invoke GetGenres s2 w2;
        (x1, t1, v1) = invoke GetGenres s0 late;
        (x', t2, v2) = invoke GetPlatforms t1 v1;
        (x2, t3, v3) = invoke GetGenres t2 v2
    in rejects GetGenres = None \<and> truthy genres \<and>
       data_posts w1 = 1 \<and> api_host early (sent w1) = DataResolved genres \<and>
       after_other_calls (getCacheKey ''genres'' names_query) s1 s2 \<and> data_posts w2 = 2 \<and>
       clock w2 (ticks w2) = 300999 \<and>
       y1 = Some (Inr genres) \<and> y2 = Some (Inr genres) \<and> s3 = s2 \<and> data_posts w3 = 2 \<and>
       data_posts v2 = 2 \<and> clock v2 (ticks v2) = 301000 \<and>
       x2 = Some (Inr genres) \<and> data_posts v3 = 3)"
proof -
  let ?s0 = "constructor (Some ''id'') (Some ''secret'')"
  let ?genres = "JArr [JObj [(''id'', JNum 4), (''name'', JStr ''Puzzle'')]]"
  let ?early = "scripted_world (\<lambda>n. if n < 4 then 1000 else 300999)
                  (TokenResolved ''tok'' 3600) (DataResolved ?genres)"
  let ?late = "scripted_world (\<lambda>n. if n < 4 then 1000 else 301000)
                  (TokenResolved ''tok'' 3600) (DataResolved ?genres)"
  let ?key = "getCacheKey ''genres'' names_query"
  have valid: "rejects GetGenres = None" by simp
  have payload: "truthy ?genres" by simp
  have other: "getCacheKey (endpoint_of GetPlatforms) (query_of GetPlatforms) \<noteq>
      getCacheKey (endpoint_of GetGenres) (query_of GetGenres)"
    by (simp add: getCacheKey_def)
  obtain y1 s1 w1 where a1: "invoke GetGenres ?s0 ?early = (y1, s1, w1)"
    by (cases "invoke GetGenres ?s0 ?early")
  obtain y' s2 w2 where a2: "invoke GetPlatforms s1 w1 = (y', s2, w2)"
    by (cases "invoke GetPlatforms s1 w1")
  obtain y2 s3 w3 where a3: "invoke GetGenres s2 w2 = (y2, s3, w3)"
    by (cases "invoke GetGenres s2 w2")
  obtain x1 t1 v1 where b1: "invoke GetGenres ?s0 ?late = (x1, t1, v1)"
    by (cases "invoke GetGenres ?s0 ?late")
  obtain x' t2 v2 where b2: "invoke GetPlatforms t1 v1 = (x', t2, v2)"
    by (cases "invoke GetPlatforms t1 v1")
  obtain x2 t3 v3 where b3: "invoke GetGenres t2 v2 = (x2, t3, v3)"
    by (cases "invoke GetGenres t2 v2")
  have a: "data_posts w1 \<noteq> data_posts ?early" "data_posts ?early = 0"
      "api_host ?early (sent w1) = DataResolved ?genres" "ticks w1 = 2"
    using a1 by (auto simp: call_defs)
  have a': "data_posts w2 = 2" "clock w2 = clock ?early" "ticks w2 = 4"
    using a1 a2 by (auto simp: call_defs)
  have b: "data_posts v1 \<noteq> data_posts ?late" "data_posts ?late = 0"
      "api_host ?late (sent v1) = DataResolved ?genres" "ticks v1 = 2"
    using b1 by (auto simp: call_defs)
  have b': "data_posts v2 = 2" "clock v2 = clock ?late" "ticks v2 = 4"
    using b1 b2 by (auto simp: call_defs)
  have betw: "after_other_calls ?key s1 s2"
    using after_other_calls.other_call [OF after_other_calls.no_call a2, of ?key] other
    by simp
  have betw': "after_other_calls ?key t1 t2"
    using after_other_calls.other_call [OF after_other_calls.no_call b2, of ?key] other
    by simp
  from repeated_call_served_from_cache [OF valid a1 a(1) a(3) _ a3] betw a a'
  have first: "data_posts w1 = 1 \<and> y1 = Some (Inr ?genres) \<and> y2 = Some (Inr ?genres) \<and>
      s3 = s2 \<and> data_posts w3 = 2"
    by (auto simp: scripted_world_def)
  have x2: "x2 \<noteq> Some (Inl token_exchange_error)" "x2 = Some (Inr ?genres)"
    using b1 b2 b3 by (auto simp: call_defs token_exchange_error_def)
  from repeated_call_served_from_cache [OF valid b1 b(1) b(3) _ b3] betw' b b' x2
  have second: "data_posts v3 = 3"
    by (auto simp: scripted_world_def)
  from a1 a2 a3 b1 b2 b3 valid payload a a' b b' betw first second x2 show ?thesis
    by (simp add: Let_def scripted_world_def)
qed

subsection \<open>Validation and results of the query methods\<close>






text \<open>
  What the by-id and by-slug methods make of a request that answers an array: the first
  element, or \<open>null\<close>.
\<close>

lemma single_result_array:
  assumes "makeRequest e q s w = (Inr (JArr xs), s', w')"
  shows "single_result (makeRequest e q s w) =
         (Some (Inr (case xs of [] \<Rightarrow> JNull | g # gs \<Rightarrow> g)), s', w')"
  using assms by (cases xs) (simp_all add: single_result_def)

lemma record_is_no_array:
  "list_all is_record xs \<Longrightarrow> (case xs of [] \<Rightarrow> JNull | g # gs \<Rightarrow> g) \<noteq> JArr ys"
  by (cases xs) auto

lemma single_result_answer:
  assumes run: "single_result (makeRequest e q s w) = (y, s', w')"
  shows "(data_posts w' \<noteq> data_posts w \<and> api_host w (sent w') = DataResolved (JArr xs) \<longrightarrow>
            y = Some (Inr (case xs of [] \<Rightarrow> JNull | g # gs \<Rightarrow> g))) \<and>
         (\<forall>ce. map_of (requestCache s) (getCacheKey e q) = Some ce \<and> data ce = JArr xs \<and>
               clock w (ticks w) - timestamp ce < CACHE_DURATION \<longrightarrow>
            y = Some (Inr (case xs of [] \<Rightarrow> JNull | g # gs \<Rightarrow> g)) \<and> s' = s \<and>
            sent w' = sent w)"
proof (intro conjI allI impI)
  obtain r s1 w1 where m: "makeRequest e q s w = (r, s1, w1)"
    by (cases "makeRequest e q s w")
  with run have same: "s1 = s'" "w1 = w'"
    by (auto simp: single_result_def split: sum.splits)
  assume "data_posts w' \<noteq> data_posts w \<and> api_host w (sent w') = DataResolved (JArr xs)"
  with makeRequest_stored [of e q s w r s' w' "JArr xs"] m same
  have "makeRequest e q s w = (Inr (JArr xs), s', w')" by simp
  from single_result_array [OF this] run
  show "y = Some (Inr (case xs of [] \<Rightarrow> JNull | g # gs \<Rightarrow> g))" by simp
next
  fix ce
  assume h: "map_of (requestCache s) (getCacheKey e q) = Some ce \<and> data ce = JArr xs \<and>
    clock w (ticks w) - timestamp ce < CACHE_DURATION"
  then have "makeRequest e q s w = (Inr (JArr xs), s, w\<lparr>ticks := Suc (ticks w)\<rparr>)"
    using makeRequest_served [of s e q ce w] by simp
  from single_result_array [OF this] run
  show "y = Some (Inr (case xs of [] \<Rightarrow> JNull | g # gs \<Rightarrow> g))" and "s' = s"
    and "sent w' = sent w"
    by auto
qed

text \<open>
  Claim C7. \<open>getGameById\<close> throws the validation error, touching nothing, for every id
  that is not positive: zero and the negative numbers (0 and -5 among them), negative
  infinity and \<open>NaN\<close>. For a positive id, when its data request is answered with an array,
  or a fresh cache entry holds one, the call returns \<open>null\<close>, not an error, if the array is
  empty, and the first element otherwise: when the elements are records, a single record
  and never an array. \<open>getGameBySlug\<close> does the same for a slug that is not empty after
  trimming, and throws its validation error for one that is.
\<close>

theorem single_game_or_null:
  "(ident = NaN \<or> ident = NegInfinity \<or> (\<exists>x. ident = Finite x \<and> sint x \<le> 0) \<longrightarrow>
      getGameById ident s w = (Some (Inl (Error ''Invalid game ID'')), s, w)) \<and>
   kind_of (Error ''Invalid game ID'') = ValidationError \<and>
   kind_of (Error ''Game slug cannot be empty'') = ValidationError \<and>
   ((ident = PosInfinity \<or> (\<exists>x. ident = Finite x \<and> 0 < sint x)) \<and>
    getGameById ident s w = (y, s', w') \<longrightarrow>
      (data_posts w' \<noteq> data_posts w \<and> api_host w (sent w') = DataResolved (JArr xs) \<longrightarrow>
         y = Some (Inr (case xs of [] \<Rightarrow> JNull | g # gs \<Rightarrow> g)) \<and>
         (list_all is_record xs \<longrightarrow> (\<forall>ys. y \<noteq> Some (Inr (JArr ys))))) \<and>
      (\<forall>ce. map_of (requestCache s) (getCacheKey ''games'' (id_query ident)) = Some ce \<and>
            data ce = JArr xs \<and> clock w (ticks w) - timestamp ce < CACHE_DURATION \<longrightarrow>
         y = Some (Inr (case xs of [] \<Rightarrow> JNull | g # gs \<Rightarrow> g)) \<and> s' = s \<and> sent w' = sent w \<and>
         (list_all is_record xs \<longrightarrow> (\<forall>ys. y \<noteq> Some (Inr (JArr ys)))))) \<and>
   (trim slug = [] \<longrightarrow>
      getGameBySlug slug s w = (Some (Inl (Error ''Game slug cannot be empty'')), s, w)) \<and>
   (trim slug \<noteq> [] \<and> getGameBySlug slug s w = (z, t', v') \<longrightarrow>
      (data_posts v' \<noteq> data_posts w \<and> api_host w (sent v') = DataResolved (JArr zs) \<longrightarrow>
         z = Some (Inr (case zs of [] \<Rightarrow> JNull | g # gs \<Rightarrow> g)) \<and>
         (list_all is_record zs \<longrightarrow> (\<forall>ys. z \<noteq> Some (Inr (JArr ys))))) \<and>
      (\<forall>ce. map_of (requestCache s) (getCacheKey ''games'' (slug_query slug)) = Some ce \<and>
            data ce = JArr zs \<and> clock w (ticks w) - timestamp ce < CACHE_DURATION \<longrightarrow>
         z = Some (Inr (case zs of [] \<Rightarrow> JNull | g # gs \<Rightarrow> g)) \<and> t' = s \<and> sent v' = sent w \<and>
         (list_all is_record zs \<longrightarrow> (\<forall>ys. z \<noteq> Some (Inr (JArr ys))))))"
proof (intro conjI)
  show "ident = NaN \<or> ident = NegInfinity \<or> (\<exists>x. ident = Finite x \<and> sint x \<le> 0) \<longrightarrow>
      getGameById ident s w = (Some (Inl (Error ''Invalid game ID'')), s, w)"
    by (auto simp: getGameById_def falsy_number_def)
  show "kind_of (Error ''Invalid game ID'') = ValidationError"
    and "kind_of (Error ''Game slug cannot be empty'') = ValidationError"
    by (simp_all add: kind_of_simps)
  show "trim slug = [] \<longrightarrow>
      getGameBySlug slug s w = (Some (Inl (Error ''Game slug cannot be empty'')), s, w)"
    by (simp add: getGameBySlug_def)
  show "(ident = PosInfinity \<or> (\<exists>x. ident = Finite x \<and> 0 < sint x)) \<and>
    getGameById ident s w = (y, s', w') \<longrightarrow>
      (data_posts w' \<noteq> data_posts w \<and> api_host w (sent w') = DataResolved (JArr xs) \<longrightarrow>
         y = Some (Inr (case xs of [] \<Rightarrow> JNull | g # gs \<Rightarrow> g)) \<and>
         (list_all is_record xs \<longrightarrow> (\<forall>ys. y \<noteq> Some (Inr (JArr ys))))) \<and>
      (\<forall>ce. map_of (requestCache s) (getCacheKey ''games'' (id_query ident)) = Some ce \<and>
            data ce = JArr xs \<and> clock w (ticks w) - timestamp ce < CACHE_DURATION \<longrightarrow>
         y = Some (Inr (case xs of [] \<Rightarrow> JNull | g # gs \<Rightarrow> g)) \<and> s' = s \<and> sent w' = sent w \<and>
         (list_all is_record xs \<longrightarrow> (\<forall>ys. y \<noteq> Some (Inr (JArr ys)))))"
  proof (intro impI)
    assume h: "(ident = PosInfinity \<or> (\<exists>x. ident = Finite x \<and> 0 < sint x)) \<and>
      getGameById ident s w = (y, s', w')"
    then have "\<not> (falsy_number ident \<or> number_le ident (Finite 0))"
      by (auto simp: falsy_number_def)
    with h have "single_result (makeRequest ''games'' (id_query ident) s w) = (y, s', w')"
      by (auto simp: getGameById_def)
    from single_result_answer [OF this, of xs] show "
      (data_posts w' \<noteq> data_posts w \<and> api_host w (sent w') = DataResolved (JArr xs) \<longrightarrow>
         y = Some (Inr (case xs of [] \<Rightarrow> JNull | g # gs \<Rightarrow> g)) \<and>
         (list_all is_record xs \<longrightarrow> (\<forall>ys. y \<noteq> Some (Inr (JArr ys))))) \<and>
      (\<forall>ce. map_of (requestCache s) (getCacheKey ''games'' (id_query ident)) = Some ce \<and>
            data ce = JArr xs \<and> clock w (ticks w) - timestamp ce < CACHE_DURATION \<longrightarrow>
         y = Some (Inr (case xs of [] \<Rightarrow> JNull | g # gs \<Rightarrow> g)) \<and> s' = s \<and> sent w' = sent w \<and>
         (list_all is_record xs \<longrightarrow> (\<forall>ys. y \<noteq> Some (Inr (JArr ys)))))"
      by (auto dest: record_is_no_array)
  qed
  show "trim slug \<noteq> [] \<and> getGameBySlug slug s w = (z, t', v') \<longrightarrow>
      (data_posts v' \<noteq> data_posts w \<and> api_host w (sent v') = DataResolved (JArr zs) \<longrightarrow>
         z = Some (Inr (case zs of [] \<Rightarrow> JNull | g # gs \<Rightarrow> g)) \<and>
         (list_all is_record zs \<longrightarrow> (\<forall>ys. z \<noteq> Some (Inr (JArr ys))))) \<and>
      (\<forall>ce. map_of (requestCache s) (getCacheKey ''games'' (slug_query slug)) = Some ce \<and>
            data ce = JArr zs \<and> clock w (ticks w) - timestamp ce < CACHE_DURATION \<longrightarrow>
         z = Some (Inr (case zs of [] \<Rightarrow> JNull | g # gs \<Rightarrow> g)) \<and> t' = s \<and> sent v' = sent w \<and>
         (list_all is_record zs \<longrightarrow> (\<forall>ys. z \<noteq> Some (Inr (JArr ys)))))"
  proof (intro impI)
    assume h: "trim slug \<noteq> [] \<and> getGameBySlug slug s w = (z, t', v')"
    then have "single_result (makeRequest ''games'' (slug_query slug) s w) = (z, t', v')"
      by (auto simp: getGameBySlug_def)
    from single_result_answer [OF this, of zs] show "
      (data_posts v' \<noteq> data_posts w \<and> api_host w (sent v') = DataResolved (JArr zs) \<longrightarrow>
         z = Some (Inr (case zs of [] \<Rightarrow> JNull | g # gs \<Rightarrow> g)) \<and>
         (list_all is_record zs \<longrightarrow> (\<forall>ys. z \<noteq> Some (Inr (JArr ys))))) \<and>
      (\<forall>ce. map_of (requestCache s) (getCacheKey ''games'' (slug_query slug)) = Some ce \<and>
            data ce = JArr zs \<and> clock w (ticks w) - timestamp ce < CACHE_DURATION \<longrightarrow>
         z = Some (Inr (case zs of [] \<Rightarrow> JNull | g # gs \<Rightarrow> g)) \<and> t' = s \<and> sent v' = sent w \<and>
         (list_all is_record zs \<longrightarrow> (\<forall>ys. z \<noteq> Some (Inr (JArr ys)))))"
      by (auto dest: record_is_no_array)
  qed
qed

text \<open>
  Runs on a fresh configured client: the ids 0, -5 and \<open>NaN\<close> and the slug of two spaces
  are refused; the id 999999, for which the endpoint answers the empty array, yields
  \<open>null\<close>; the id 7 and the slug \<open>tetris\<close>, for which it answers two records, yield the
  first of them.
\<close>

theorem single_game_or_null_witness:
  "(let s0 = constructor (Some ''id'') (Some ''secret'');
        game = JObj [(''id'', JNum 7), (''slug'', JStr ''tetris'')];
        other = JObj [(''id'', JNum 8), (''slug'', JStr ''tetris-2'')];
        none = scripted_world (\<lambda>n. 1000) (TokenResolved ''tok'' 3600) (DataResolved (JArr []));
        two = scripted_world (\<lambda>n. 1000) (TokenResolved ''tok'' 3600)
                (DataResolved (JArr [game, other]));
        (y1, s1, w1) = getGameById (Finite 999999) s0 none;
        (y2, s2, w2) = getGameById (Finite 7) s0 two;
        (y3, s3, w3) = getGameBySlug ''tetris'' s0 two
    in fst (getGameById (Finite 0) s0 none) = Some (Inl (Error ''Invalid game ID'')) \<and>
       fst (getGameById (Finite (- 5)) s0 none) = Some (Inl (Error ''Invalid game ID'')) \<and>
       fst (getGameById NaN s0 none) = Some (Inl (Error ''Invalid game ID'')) \<and>
       fst (getGameBySlug ''  '' s0 two) = Some (Inl (Error ''Game slug cannot be empty'')) \<and>
       data_posts w1 \<noteq> data_posts none \<and> api_host none (sent w1) = DataResolved (JArr []) \<and>
       y1 = Some (Inr JNull) \<and>
       list_all is_record [game, other] \<and>
       data_posts w2 \<noteq> data_posts two \<and> api_host two (sent w2) = DataResolved (JArr [game, other]) \<and>
       y2 = Some (Inr game) \<and>
       trim ''tetris'' \<noteq> [] \<and>
       data_posts w3 \<noteq> data_posts two \<and> api_host two (sent w3) = DataResolved (JArr [game, other]) \<and>
       y3 = Some (Inr game))"
proof -
  let ?s0 = "constructor (Some ''id'') (Some ''secret'')"
  let ?game = "JObj [(''id'', JNum 7), (''slug'', JStr ''tetris'')]"
  let ?other = "JObj [(''id'', JNum 8), (''slug'', JStr ''tetris-2'')]"
  let ?none = "scripted_world (\<lambda>n. 1000) (TokenResolved ''tok'' 3600) (DataResolved (JArr []))"
  let ?two = "scripted_world (\<lambda>n. 1000) (TokenResolved ''tok'' 3600)
                (DataResolved (JArr [?game, ?other]))"
  obtain y1 s1 w1 where run1: "getGameById (Finite 999999) ?s0 ?none = (y1, s1, w1)"
    by (cases "getGameById (Finite 999999) ?s0 ?none")
  obtain y2 s2 w2 where run2: "getGameById (Finite 7) ?s0 ?two = (y2, s2, w2)"
    by (cases "getGameById (Finite 7) ?s0 ?two")
  obtain y3 s3 w3 where run3: "getGameBySlug ''tetris'' ?s0 ?two = (y3, s3, w3)"
    by (cases "getGameBySlug ''tetris'' ?s0 ?two")
  have slug: "trim ''tetris'' \<noteq> []" and blank: "trim ''  '' = []"
    by (simp_all add: trim_def is_white_space_def)
  have records: "list_all is_record [?game, ?other]" by simp
  have ob1: "data_posts w1 \<noteq> data_posts ?none" "api_host ?none (sent w1) = DataResolved (JArr [])"
    using run1 by (auto simp: call_defs)
  have ob2: "data_posts w2 \<noteq> data_posts ?two"
      "api_host ?two (sent w2) = DataResolved (JArr [?game, ?other])"
    using run2 by (auto simp: call_defs)
  have ob3: "data_posts w3 \<noteq> data_posts ?two"
      "api_host ?two (sent w3) = DataResolved (JArr [?game, ?other])"
    using run3 by (auto simp: call_defs)
  note by_id = conjunct2 [THEN conjunct2, THEN conjunct2, THEN conjunct1]
  note by_slug = conjunct2 [THEN conjunct2, THEN conjunct2, THEN conjunct2, THEN conjunct2]
  note bad_slug = conjunct2 [THEN conjunct2, THEN conjunct2, THEN conjunct2, THEN conjunct1]
  from single_game_or_null [of "Finite 999999" ?s0 ?none y1 s1 w1 "[]", THEN by_id] run1 ob1
  have one: "y1 = Some (Inr JNull)" by simp
  from single_game_or_null [of "Finite 7" ?s0 ?two y2 s2 w2 "[?game, ?other]", THEN by_id]
    run2 ob2
  have two: "y2 = Some (Inr ?game)" by simp
  from single_game_or_null
    [of _ ?s0 ?two _ _ _ _ "''tetris''" y3 s3 w3 "[?game, ?other]", THEN by_slug]
    run3 ob3 slug
  have three: "y3 = Some (Inr ?game)" by simp
  from single_game_or_null [of "Finite 0" ?s0 ?none, THEN conjunct1]
    single_game_or_null [of "Finite (- 5)" ?s0 ?none, THEN conjunct1]
    single_game_or_null [of NaN ?s0 ?none, THEN conjunct1]
    single_game_or_null [of _ ?s0 ?two _ _ _ _ "''  ''", THEN bad_slug] blank
  have refused: "fst (getGameById (Finite 0) ?s0 ?none) = Some (Inl (Error ''Invalid game ID''))"
    "fst (getGameById (Finite (- 5)) ?s0 ?none) = Some (Inl (Error ''Invalid game ID''))"
    "fst (getGameById NaN ?s0 ?none) = Some (Inl (Error ''Invalid game ID''))"
    "fst (getGameBySlug ''  '' ?s0 ?two) = Some (Inl (Error ''Game slug cannot be empty''))"
    by simp_all
  from run1 run2 run3 slug records ob1 ob2 ob3 one two three refused show ?thesis
    by (simp add: Let_def)
qed

end
